theory Spec2Isabelle
  imports Main "HOL-Library.Word"
begin

section \<open>Shared types (package types)\<close>

text \<open>
  UUIDs are 16-byte values and the amounts and balances are Go \<open>int64\<close>: both are words,
  so that \<open>+\<close> and \<open>-\<close> wrap around as they do in Go. Timestamps are only stored, never
  computed with. A \<open>json.RawMessage\<close> is a byte string; the empty one stands for Go's
  \<open>nil\<close> and for SQL \<open>NULL\<close> in the \<open>metadata\<close> column.
\<close>

type_synonym uuid = "128 word"
type_synonym int64 = "64 word"
type_synonym timestamp = nat
type_synonym bytes = string

text \<open>\<open>TransactionType\<close> is a Go string type: a decoded payload may carry any string.\<close>

type_synonym TransactionType = string

abbreviation TransactionTypeDebit :: TransactionType where
  "TransactionTypeDebit \<equiv> ''DEBIT''"

abbreviation TransactionTypeCredit :: TransactionType where
  "TransactionTypeCredit \<equiv> ''CREDIT''"

text \<open>The status columns carry a CHECK constraint that admits exactly these values.\<close>

datatype TransactionStatus =
    TransactionStatusPending
  | TransactionStatusProcessing
  | TransactionStatusProcessed
  | TransactionStatusFailed

datatype AccountStatus = AccountStatusActive | AccountStatusSuspended

record Account =
  acc_ID :: uuid
  acc_CreatedAt :: timestamp
  acc_UpdatedAt :: timestamp
  acc_Currency :: string
  acc_BalanceCents :: int64
  acc_Status :: AccountStatus

record Transaction =
  tx_ID :: uuid
  tx_AccountID :: uuid
  tx_AmountCents :: int64
  tx_Currency :: string
  tx_Type :: TransactionType
  tx_Status :: TransactionStatus
  tx_IdempotencyKey :: string
  tx_FailureReason :: "string option"
  tx_Metadata :: bytes
  tx_CreatedAt :: timestamp
  tx_UpdatedAt :: timestamp

record CreateTransactionRequest =
  req_AccountID :: uuid
  req_AmountCents :: int64
  req_Currency :: string
  req_Type :: TransactionType
  req_IdempotencyKey :: string
  req_Metadata :: bytes

record EventEnvelope =
  ev_EventID :: uuid
  ev_EventType :: string
  ev_OccurredAt :: timestamp
  ev_TraceID :: string
  ev_IdempotencyKey :: string
  ev_AggregateID :: uuid
  ev_Payload :: bytes

record TransactionCreatedPayload =
  pl_TransactionID :: uuid
  pl_AccountID :: uuid
  pl_AmountCents :: int64
  pl_Currency :: string
  pl_Type :: TransactionType
  pl_IdempotencyKey :: string
  pl_Metadata :: bytes

section \<open>The database (migrations)\<close>

record OutboxRow =
  ob_ID :: uuid
  ob_AggregateType :: string
  ob_AggregateID :: uuid
  ob_EventType :: string
  ob_Payload :: bytes
  ob_Status :: string
  ob_CreatedAt :: timestamp
  ob_PublishedAt :: "timestamp option"
  ob_PublishAttempts :: int
  ob_LastError :: "string option"

record ProcessedEvent =
  pe_EventID :: uuid
  pe_TransactionID :: uuid
  pe_ProcessedAt :: timestamp

text \<open>Each table is the list of its rows, in insertion order.\<close>

record DB =
  accounts :: "Account list"
  transactions :: "Transaction list"
  outbox_events :: "OutboxRow list"
  processed_events :: "ProcessedEvent list"

text \<open>
  Every statement sent to the database may fail for reasons outside the program (lost
  connection, serialization failure, timeout). A fault is the driver's error message;
  \<open>None\<close> means the statement ran.
\<close>

type_synonym fault = "string option"

section \<open>Formatting (\<open>%d\<close>)\<close>

definition digit :: "nat \<Rightarrow> char" where
  "digit d = ''0123456789'' ! (d mod 10)"

fun digits10 :: "nat \<Rightarrow> string" where
  "digits10 n =
     (if n < 10 then [digit n] else digits10 (n div 10) @ [digit (n mod 10)])"

declare digits10.simps [simp del]

definition fmt_d :: "int \<Rightarrow> string" where
  "fmt_d i = (if i < 0 then CHR ''-'' # digits10 (nat (- i)) else digits10 (nat i))"

section \<open>Applier: \<open>ProcessTransactionCreated\<close> (package processor)\<close>

text \<open>The statements of the applier, one definition per SQL text.\<close>

definition select_processed_event :: "DB \<Rightarrow> uuid \<Rightarrow> ProcessedEvent option" where
  "select_processed_event db eid = find (\<lambda>r. pe_EventID r = eid) (processed_events db)"

text \<open>
  \<open>INSERT INTO processed_events ... ON CONFLICT (event_id) DO NOTHING\<close>: a row with the
  same primary key makes the statement affect no row; otherwise the foreign key
  \<open>transaction_id REFERENCES transactions(id)\<close> must hold. The result is the number of
  rows affected and the new table state.
\<close>

definition insert_processed_event ::
  "fault \<Rightarrow> timestamp \<Rightarrow> uuid \<Rightarrow> uuid \<Rightarrow> DB \<Rightarrow> string + (nat \<times> DB)" where
  "insert_processed_event f now eid txid db =
     (case f of
        Some m \<Rightarrow> Inl m
      | None \<Rightarrow>
          if select_processed_event db eid \<noteq> None then Inr (0, db)
          else if \<not> (\<exists>t \<in> set (transactions db). tx_ID t = txid)
          then Inl ''pq: insert or update on table \"processed_events\" violates foreign key constraint \"processed_events_transaction_id_fkey\"''
          else Inr (1, db\<lparr>processed_events := processed_events db @
                 [\<lparr>pe_EventID = eid, pe_TransactionID = txid, pe_ProcessedAt = now\<rparr>]\<rparr>))"

text \<open>\<open>UPDATE transactions SET status = 'PROCESSING' WHERE id = $1 AND status = 'PENDING'\<close>\<close>

definition update_status_processing :: "timestamp \<Rightarrow> uuid \<Rightarrow> DB \<Rightarrow> DB" where
  "update_status_processing now txid db =
     db\<lparr>transactions := map (\<lambda>t.
        if tx_ID t = txid \<and> tx_Status t = TransactionStatusPending
        then t\<lparr>tx_Status := TransactionStatusProcessing, tx_UpdatedAt := now\<rparr> else t)
        (transactions db)\<rparr>"

text \<open>\<open>SELECT balance_cents, currency FROM accounts WHERE id = $1 FOR UPDATE\<close>\<close>

definition lock_account :: "DB \<Rightarrow> uuid \<Rightarrow> Account option" where
  "lock_account db aid = find (\<lambda>a. acc_ID a = aid) (accounts db)"

text \<open>\<open>UPDATE transactions SET status = 'FAILED', failure_reason = $1 WHERE id = $2\<close>\<close>

definition mark_failed :: "timestamp \<Rightarrow> string \<Rightarrow> uuid \<Rightarrow> DB \<Rightarrow> DB" where
  "mark_failed now reason txid db =
     db\<lparr>transactions := map (\<lambda>t.
        if tx_ID t = txid
        then t\<lparr>tx_Status := TransactionStatusFailed, tx_FailureReason := Some reason,
               tx_UpdatedAt := now\<rparr> else t)
        (transactions db)\<rparr>"

text \<open>\<open>UPDATE accounts SET balance_cents = $1 WHERE id = $2\<close>\<close>

definition update_balance :: "timestamp \<Rightarrow> int64 \<Rightarrow> uuid \<Rightarrow> DB \<Rightarrow> DB" where
  "update_balance now newBalance aid db =
     db\<lparr>accounts := map (\<lambda>a.
        if acc_ID a = aid then a\<lparr>acc_BalanceCents := newBalance, acc_UpdatedAt := now\<rparr> else a)
        (accounts db)\<rparr>"

text \<open>\<open>UPDATE transactions SET status = 'PROCESSED' WHERE id = $1\<close>\<close>

definition mark_processed :: "timestamp \<Rightarrow> uuid \<Rightarrow> DB \<Rightarrow> DB" where
  "mark_processed now txid db =
     db\<lparr>transactions := map (\<lambda>t.
        if tx_ID t = txid
        then t\<lparr>tx_Status := TransactionStatusProcessed, tx_UpdatedAt := now\<rparr> else t)
        (transactions db)\<rparr>"

text \<open>
  The faults of one call, one per statement in source order, and the clock. The database
  transaction works on a copy of the tables; a commit installs the copy, a return without
  commit (the deferred \<open>Rollback\<close>) leaves the tables as they were.
\<close>

record ProcEnv =
  pf_check :: fault
  pf_begin :: fault
  pf_insert :: fault
  pf_update_status :: fault
  pf_lock :: fault
  pf_fail :: fault
  pf_balance :: fault
  pf_processed :: fault
  pf_commit :: fault
  p_now :: timestamp

text \<open>The result is the pair \<open>(shouldRetry, err)\<close> of the source and the tables after the call.\<close>

type_synonym proc_result = "(bool \<times> string option) \<times> DB"

text \<open>Lines 133-196: the new balance, the insufficient-balance branch, the success branch.\<close>

definition settle ::
  "ProcEnv \<Rightarrow> TransactionCreatedPayload \<Rightarrow> int64 \<Rightarrow> DB \<Rightarrow> DB \<Rightarrow> proc_result" where
  "settle env payload currentBalance db tx =
     (let newBalance =
            (if pl_Type payload = TransactionTypeCredit
             then currentBalance + pl_AmountCents payload
             else currentBalance - pl_AmountCents payload)
      in if newBalance <s 0 \<and> pl_Type payload = TransactionTypeDebit then
           (let failureReason = ''insufficient balance: current='' @ fmt_d (sint currentBalance)
                  @ '', debit='' @ fmt_d (sint (pl_AmountCents payload))
            in case pf_fail env of
                 Some m \<Rightarrow> ((True, Some (''failed to mark transaction as failed: '' @ m)), db)
               | None \<Rightarrow>
                   ((False, Some (''insufficient balance: '' @ failureReason)),
                    (case pf_commit env of
                       Some m \<Rightarrow> db
                     | None \<Rightarrow> mark_failed (p_now env) failureReason (pl_TransactionID payload) tx)))
         else
           (case pf_balance env of
              Some m \<Rightarrow> ((True, Some (''failed to update balance: '' @ m)), db)
            | None \<Rightarrow>
                (case pf_processed env of
                   Some m \<Rightarrow> ((True, Some (''failed to mark transaction as processed: '' @ m)), db)
                 | None \<Rightarrow>
                     (case pf_commit env of
                        Some m \<Rightarrow> ((True, Some (''failed to commit transaction: '' @ m)), db)
                      | None \<Rightarrow>
                          ((False, None),
                           mark_processed (p_now env) (pl_TransactionID payload)
                             (update_balance (p_now env) newBalance (pl_AccountID payload) tx))))))"

text \<open>Lines 66-131: begin, claim the envelope id, move to PROCESSING, lock the account.\<close>

definition applyInTx ::
  "ProcEnv \<Rightarrow> EventEnvelope \<Rightarrow> TransactionCreatedPayload \<Rightarrow> DB \<Rightarrow> proc_result" where
  "applyInTx env envelope payload db =
     (case pf_begin env of
        Some m \<Rightarrow> ((True, Some (''failed to begin transaction: '' @ m)), db)
      | None \<Rightarrow>
          (case insert_processed_event (pf_insert env) (p_now env) (ev_EventID envelope)
                  (pl_TransactionID payload) db of
             Inl m \<Rightarrow> ((True, Some (''failed to insert processed event: '' @ m)), db)
           | Inr (rowsAffected, tx1) \<Rightarrow>
               if rowsAffected = 0 then ((False, None), db)
               else
                 (case pf_update_status env of
                    Some m \<Rightarrow> ((True, Some (''failed to update transaction status: '' @ m)), db)
                  | None \<Rightarrow>
                      (let tx2 = update_status_processing (p_now env) (pl_TransactionID payload) tx1
                       in case pf_lock env of
                            Some m \<Rightarrow> ((True, Some (''failed to lock account: '' @ m)), db)
                          | None \<Rightarrow>
                              (case lock_account tx2 (pl_AccountID payload) of
                                 None \<Rightarrow> ((False, Some ''account not found''), db)
                               | Some a \<Rightarrow>
                                   if acc_Currency a \<noteq> pl_Currency payload
                                   then ((False, Some (''currency mismatch: account='' @ acc_Currency a
                                           @ '', transaction='' @ pl_Currency payload)), db)
                                   else settle env payload (acc_BalanceCents a) db tx2)))))"

text \<open>
  Lines 41-64: decode the payload, then look the envelope id up in \<open>processed_events\<close>.
  \<open>unmarshal\<close> is \<open>json.Unmarshal\<close> into a \<open>TransactionCreatedPayload\<close>, with its error
  message on the left.
\<close>

definition ProcessTransactionCreated ::
  "(bytes \<Rightarrow> string + TransactionCreatedPayload) \<Rightarrow> ProcEnv \<Rightarrow> EventEnvelope \<Rightarrow> DB
     \<Rightarrow> proc_result" where
  "ProcessTransactionCreated unmarshal env envelope db =
     (case unmarshal (ev_Payload envelope) of
        Inl m \<Rightarrow> ((False, Some (''failed to unmarshal payload: '' @ m)), db)
      | Inr payload \<Rightarrow>
          (case pf_check env of
             Some m \<Rightarrow> ((True, Some (''failed to check idempotency: '' @ m)), db)
           | None \<Rightarrow>
               if select_processed_event db (ev_EventID envelope) \<noteq> None
               then ((False, None), db)
               else applyInTx env envelope payload db))"

text \<open>
  The tables as the transaction sees them after the two statements of lines 79-109 have
  run on a fresh envelope id: the \<open>processed_events\<close> row is there and a PENDING
  transaction has moved to PROCESSING.
\<close>

definition claim_row :: "ProcEnv \<Rightarrow> EventEnvelope \<Rightarrow> TransactionCreatedPayload \<Rightarrow> DB \<Rightarrow> DB" where
  "claim_row env e p db = update_status_processing (p_now env) (pl_TransactionID p)
     (db\<lparr>processed_events := processed_events db @
        [\<lparr>pe_EventID = ev_EventID e, pe_TransactionID = pl_TransactionID p,
          pe_ProcessedAt = p_now env\<rparr>]\<rparr>)"

text \<open>
  The log delivers an envelope at least once. \<open>deliver\<close> hands the same envelope to the
  applier once per element of the list, each call with its own faults and clock, the
  tables of one call being those the previous call left.
\<close>

fun deliver ::
  "(bytes \<Rightarrow> string + TransactionCreatedPayload) \<Rightarrow> ProcEnv list \<Rightarrow> EventEnvelope \<Rightarrow> DB
     \<Rightarrow> (bool \<times> string option) list \<times> DB" where
  "deliver unmarshal [] envelope db = ([], db)"
| "deliver unmarshal (env # envs) envelope db =
     (case ProcessTransactionCreated unmarshal env envelope db of
        (r, db1) \<Rightarrow>
          (case deliver unmarshal envs envelope db1 of (rs, db2) \<Rightarrow> (r # rs, db2)))"

text \<open>The balance column, read off the account rows.\<close>

definition balances :: "DB \<Rightarrow> (uuid \<times> int64) list" where
  "balances db = map (\<lambda>a. (acc_ID a, acc_BalanceCents a)) (accounts db)"

section \<open>Applier: the consumer loop (package consumer)\<close>

text \<open>
  A \<open>kafka.Message\<close>, and the broker as the \<open>kafka.Reader\<close> of a consumer group and the
  DLQ writer see it. The reader hands out the messages of the topic in log order and
  moves on after each fetch, whether or not the message was committed: \<open>pending\<close> holds
  the messages it has yet to hand out. A commit stores, for the partition of the
  message, the position after it; a member of the group that starts later reads from
  that position on, so every message below it counts as consumed. \<open>dlq_topic\<close> holds the
  messages written to the DLQ topic.
\<close>

record Message =
  msg_Partition :: int
  msg_Offset :: int64
  msg_Key :: bytes
  msg_Value :: bytes
  msg_Headers :: "(string \<times> bytes) list"

record Broker =
  pending :: "Message list"
  committed :: "(int \<times> int64) list"
  dlq_topic :: "Message list"

text \<open>A message is covered when its offset lies below the committed position of its partition.\<close>

definition covered :: "Broker \<Rightarrow> Message \<Rightarrow> bool" where
  "covered br msg =
     (case map_of (committed br) (msg_Partition msg) of
        None \<Rightarrow> False
      | Some position \<Rightarrow> msg_Offset msg <s position)"

text \<open>
  What the outside world does during one \<open>processMessage\<close>: the fetch, the DLQ write and
  the offset commit succeed or fail, and each attempt of the retry loop meets its own
  database faults.
\<close>

record ConsEnv =
  cn_fetch :: fault
  cn_attempts :: "nat \<Rightarrow> ProcEnv"
  cn_dlq_write :: fault
  cn_commit :: fault

text \<open>
  Lines 117-139, the retry loop \<open>for attempt := 0; attempt < maxRetries && shouldRetry\<close>.
  The sleep before a retry passes real time only and is left out.
\<close>

function retryLoop ::
  "(bytes \<Rightarrow> string + TransactionCreatedPayload) \<Rightarrow> int \<Rightarrow> (nat \<Rightarrow> ProcEnv) \<Rightarrow> EventEnvelope
     \<Rightarrow> int \<Rightarrow> bool \<Rightarrow> string option \<Rightarrow> DB \<Rightarrow> proc_result" where
  "retryLoop unmarshal maxRetries envs envelope attempt shouldRetry lastErr db =
     (if attempt < maxRetries \<and> shouldRetry then
        (case ProcessTransactionCreated unmarshal (envs (nat attempt)) envelope db of
           ((shouldRetry', lastErr'), db') \<Rightarrow>
             if \<not> shouldRetry' then ((shouldRetry', lastErr'), db')
             else retryLoop unmarshal maxRetries envs envelope (attempt + 1)
                    shouldRetry' lastErr' db')
      else ((shouldRetry, lastErr), db))"
  by pat_completeness auto
termination
  by (relation "measure (\<lambda>(unmarshal, maxRetries, envs, envelope, attempt, shouldRetry,
        lastErr, db). nat (maxRetries - attempt))") auto

declare retryLoop.simps [simp del]

text \<open>\<open>sendToDLQ\<close>: key and value of the original message, its headers plus three.\<close>

definition dlqMessage :: "Message \<Rightarrow> string \<Rightarrow> Message" where
  "dlqMessage originalMsg err =
     \<lparr>msg_Partition = 0, msg_Offset = 0,
      msg_Key = msg_Key originalMsg,
      msg_Value = msg_Value originalMsg,
      msg_Headers = msg_Headers originalMsg @
        [(''dlq_reason'', err),
         (''original_partition'', fmt_d (msg_Partition originalMsg)),
         (''original_offset'', fmt_d (sint (msg_Offset originalMsg)))]\<rparr>"

definition sendToDLQ :: "fault \<Rightarrow> Message \<Rightarrow> string \<Rightarrow> Broker \<Rightarrow> string option \<times> Broker" where
  "sendToDLQ f originalMsg err br =
     (case f of
        Some m \<Rightarrow> (Some (''failed to write to DLQ: '' @ m), br)
      | None \<Rightarrow> (None, br\<lparr>dlq_topic := dlq_topic br @ [dlqMessage originalMsg err]\<rparr>))"

text \<open>
  \<open>reader.FetchMessage\<close>: the next message of the log; with none left the call waits
  until its context ends.
\<close>

definition FetchMessage :: "fault \<Rightarrow> Broker \<Rightarrow> (string + Message) \<times> Broker" where
  "FetchMessage f br =
     (case f of
        Some m \<Rightarrow> (Inl m, br)
      | None \<Rightarrow>
          (case pending br of
             [] \<Rightarrow> (Inl ''context deadline exceeded'', br)
           | msg # rest \<Rightarrow> (Inr msg, br\<lparr>pending := rest\<rparr>)))"

text \<open>
  \<open>reader.CommitMessages\<close>: the committed position of the message's partition becomes
  the offset after the message.
\<close>

definition CommitMessages :: "fault \<Rightarrow> Message \<Rightarrow> Broker \<Rightarrow> string option \<times> Broker" where
  "CommitMessages f msg br =
     (case f of
        Some m \<Rightarrow> (Some m, br)
      | None \<Rightarrow>
          (None, br\<lparr>committed := (msg_Partition msg, msg_Offset msg + 1)
                   # filter (\<lambda>e. fst e \<noteq> msg_Partition msg) (committed br)\<rparr>))"

text \<open>
  \<open>processMessage\<close>. \<open>unmarshalEnvelope\<close> is \<open>json.Unmarshal\<close> into an \<open>EventEnvelope\<close>.
  The result is the returned error and the state of the tables and of the broker.
\<close>

definition processMessage ::
  "(bytes \<Rightarrow> string + EventEnvelope) \<Rightarrow> (bytes \<Rightarrow> string + TransactionCreatedPayload)
     \<Rightarrow> int \<Rightarrow> ConsEnv \<Rightarrow> DB \<times> Broker \<Rightarrow> string option \<times> DB \<times> Broker" where
  "processMessage unmarshalEnvelope unmarshal maxRetries env st =
     (case st of (db, br0) \<Rightarrow>
      (case FetchMessage (cn_fetch env) br0 of
         (Inl m, br) \<Rightarrow> (Some (''failed to fetch message: '' @ m), db, br)
       | (Inr msg, br) \<Rightarrow>
           (case unmarshalEnvelope (msg_Value msg) of
              Inl m \<Rightarrow> (Some m, db, snd (CommitMessages (cn_commit env) msg br))
            | Inr envelope \<Rightarrow>
                (case retryLoop unmarshal maxRetries (cn_attempts env) envelope 0 True None db of
                   ((shouldRetry, lastErr), db') \<Rightarrow>
                     (case (if shouldRetry then lastErr else None) of
                        Some e \<Rightarrow>
                          (case sendToDLQ (cn_dlq_write env) msg e br of
                             (Some err, br1) \<Rightarrow> (Some err, db', br1)
                           | (None, br1) \<Rightarrow>
                               (case CommitMessages (cn_commit env) msg br1 of
                                  (Some m, br2) \<Rightarrow>
                                    (Some (''failed to commit message: '' @ m), db', br2)
                                | (None, br2) \<Rightarrow> (None, db', br2)))
                      | None \<Rightarrow>
                          (case CommitMessages (cn_commit env) msg br of
                             (Some m, br2) \<Rightarrow>
                               (Some (''failed to commit message: '' @ m), db', br2)
                           | (None, br2) \<Rightarrow> (None, db', br2)))))))"

text \<open>
  \<open>Start\<close>, lines 71-82: \<open>processMessage\<close> again and again, an error being logged and
  the loop going on. One environment per iteration.
\<close>

fun Start ::
  "(bytes \<Rightarrow> string + EventEnvelope) \<Rightarrow> (bytes \<Rightarrow> string + TransactionCreatedPayload)
     \<Rightarrow> int \<Rightarrow> ConsEnv list \<Rightarrow> DB \<times> Broker \<Rightarrow> string option list \<times> DB \<times> Broker" where
  "Start unmarshalEnvelope unmarshal maxRetries [] st = ([], st)"
| "Start unmarshalEnvelope unmarshal maxRetries (env # envs) st =
     (case processMessage unmarshalEnvelope unmarshal maxRetries env st of
        (err, st1) \<Rightarrow>
          (case Start unmarshalEnvelope unmarshal maxRetries envs st1 of
             (errs, st2) \<Rightarrow> (err # errs, st2)))"

section \<open>Relay: \<open>publishEvent\<close> (package publisher)\<close>

record outboxEvent =
  oe_ID :: uuid
  oe_AggregateType :: string
  oe_AggregateID :: uuid
  oe_EventType :: string
  oe_Payload :: bytes
  oe_CreatedAt :: timestamp

text \<open>
  Lines 138-155. \<open>newUUID\<close> is the value that \<open>uuid.New()\<close> returns in this call: a random
  (version 4) UUID, chosen by the generator and not by the program.
\<close>

definition buildEnvelope ::
  "(bytes \<Rightarrow> string + TransactionCreatedPayload) \<Rightarrow> uuid \<Rightarrow> outboxEvent \<Rightarrow> EventEnvelope" where
  "buildEnvelope unmarshal newUUID event =
     (let envelope = \<lparr>ev_EventID = newUUID,
                       ev_EventType = oe_EventType event,
                       ev_OccurredAt = oe_CreatedAt event,
                       ev_TraceID = [],
                       ev_IdempotencyKey = [],
                       ev_AggregateID = oe_AggregateID event,
                       ev_Payload = oe_Payload event\<rparr>
      in if oe_EventType event = ''transaction.created''
         then (case unmarshal (oe_Payload event) of
                 Inr payload \<Rightarrow> envelope\<lparr>ev_IdempotencyKey := pl_IdempotencyKey payload\<rparr>
               | Inl m \<Rightarrow> envelope)
         else envelope)"

text \<open>
  Lines 157-183. \<open>marshalEnvelope\<close> is \<open>json.Marshal\<close> on an envelope, \<open>uuidString\<close> is
  \<open>UUID.String\<close>; the topic is the list of messages written so far.
\<close>

definition publishEvent ::
  "(bytes \<Rightarrow> string + TransactionCreatedPayload) \<Rightarrow> (EventEnvelope \<Rightarrow> string + bytes)
     \<Rightarrow> (uuid \<Rightarrow> string) \<Rightarrow> uuid \<Rightarrow> fault \<Rightarrow> outboxEvent \<Rightarrow> Message list
     \<Rightarrow> string option \<times> Message list" where
  "publishEvent unmarshal marshalEnvelope uuidString newUUID f event topic =
     (case marshalEnvelope (buildEnvelope unmarshal newUUID event) of
        Inl m \<Rightarrow> (Some (''failed to marshal envelope: '' @ m), topic)
      | Inr envelopeBytes \<Rightarrow>
          (case f of
             Some m \<Rightarrow> (Some (''failed to write message: '' @ m), topic)
           | None \<Rightarrow>
               (None, topic @
                  [\<lparr>msg_Partition = 0, msg_Offset = 0,
                    msg_Key = uuidString (oe_AggregateID event),
                    msg_Value = envelopeBytes,
                    msg_Headers = [(''event_type'', oe_EventType event),
                                   (''aggregate_id'', uuidString (oe_AggregateID event))]\<rparr>])))"

section \<open>Ingress: \<open>CreateTransaction\<close> (package service)\<close>

text \<open>\<open>SELECT ... FROM transactions WHERE account_id = $1 AND idempotency_key = $2 LIMIT 1\<close>\<close>

definition select_transaction_by_key :: "DB \<Rightarrow> uuid \<Rightarrow> string \<Rightarrow> Transaction option" where
  "select_transaction_by_key db aid key =
     find (\<lambda>t. tx_AccountID t = aid \<and> tx_IdempotencyKey t = key) (transactions db)"

text \<open>\<open>SELECT status FROM accounts WHERE id = $1\<close>\<close>

definition select_account_status :: "DB \<Rightarrow> uuid \<Rightarrow> AccountStatus option" where
  "select_account_status db aid = map_option acc_Status (find (\<lambda>a. acc_ID a = aid) (accounts db))"

text \<open>The message that the source compares the driver's error with (line 139).\<close>

abbreviation unique_violation :: string where
  "unique_violation \<equiv>
     ''pq: duplicate key value violates unique constraint \"transactions_account_id_idempotency_key_key\"''"

text \<open>
  \<open>INSERT INTO transactions ... RETURNING ...\<close> under the constraints of the migration:
  the CHECK on \<open>type\<close>, the primary key, \<open>UNIQUE(account_id, idempotency_key)\<close> and the
  foreign key to \<open>accounts\<close>.
\<close>

definition insert_transaction :: "fault \<Rightarrow> Transaction \<Rightarrow> DB \<Rightarrow> string + DB" where
  "insert_transaction f row db =
     (case f of
        Some m \<Rightarrow> Inl m
      | None \<Rightarrow>
          if tx_Type row \<noteq> TransactionTypeDebit \<and> tx_Type row \<noteq> TransactionTypeCredit
          then Inl ''pq: new row for relation \"transactions\" violates check constraint \"transactions_type_check\"''
          else if \<exists>t \<in> set (transactions db). tx_ID t = tx_ID row
          then Inl ''pq: duplicate key value violates unique constraint \"transactions_pkey\"''
          else if \<exists>t \<in> set (transactions db).
                    tx_AccountID t = tx_AccountID row \<and> tx_IdempotencyKey t = tx_IdempotencyKey row
          then Inl unique_violation
          else if \<not> (\<exists>a \<in> set (accounts db). acc_ID a = tx_AccountID row)
          then Inl ''pq: insert or update on table \"transactions\" violates foreign key constraint \"transactions_account_id_fkey\"''
          else Inr (db\<lparr>transactions := transactions db @ [row]\<rparr>))"

text \<open>\<open>INSERT INTO outbox_events ...\<close>, with its primary key.\<close>

definition insert_outbox :: "fault \<Rightarrow> OutboxRow \<Rightarrow> DB \<Rightarrow> string + DB" where
  "insert_outbox f row db =
     (case f of
        Some m \<Rightarrow> Inl m
      | None \<Rightarrow>
          if \<exists>x \<in> set (outbox_events db). ob_ID x = ob_ID row
          then Inl ''pq: duplicate key value violates unique constraint \"outbox_events_pkey\"''
          else Inr (db\<lparr>outbox_events := outbox_events db @ [row]\<rparr>))"

text \<open>
  The faults of one call in source order, the two values that \<open>uuid.New()\<close> returns and
  the clock.
\<close>

record CreateEnv =
  cf_begin :: fault
  cf_check :: fault
  cf_account :: fault
  cf_insert :: fault
  cf_reread :: fault
  cf_outbox :: fault
  cf_commit :: fault
  c_txID :: uuid
  c_outboxID :: uuid
  c_now :: timestamp

type_synonym create_result = "(string + Transaction) \<times> DB"

text \<open>Lines 158-166: the payload of the event, field by field from the transaction.\<close>

definition payload_of :: "Transaction \<Rightarrow> TransactionCreatedPayload" where
  "payload_of t = \<lparr>pl_TransactionID = tx_ID t, pl_AccountID = tx_AccountID t,
     pl_AmountCents = tx_AmountCents t, pl_Currency = tx_Currency t, pl_Type = tx_Type t,
     pl_IdempotencyKey = tx_IdempotencyKey t, pl_Metadata = tx_Metadata t\<rparr>"

text \<open>
  The re-read of line 142 is sent on the very transaction whose \<open>INSERT\<close> (line 124) has
  just failed. PostgreSQL refuses every statement of a transaction after one of its
  statements has failed, until the rollback; so this \<open>SELECT\<close> answers with an error,
  its own fault or the refusal, and never with a row.
\<close>

abbreviation aborted_tx :: string where
  "aborted_tx \<equiv>
     ''pq: current transaction is aborted, commands ignored until end of transaction block''"

definition reread_after_failed_insert ::
  "fault \<Rightarrow> DB \<Rightarrow> uuid \<Rightarrow> string \<Rightarrow> string + Transaction" where
  "reread_after_failed_insert f db aid key =
     (case f of Some m \<Rightarrow> Inl m | None \<Rightarrow> Inl aborted_tx)"

text \<open>
  Lines 102-198: the insert, the re-read after a violation of the unique constraint, the
  outbox row and the commit. \<open>marshal\<close> is \<open>json.Marshal\<close> on the payload. \<open>db\<close> holds the
  committed tables at the time of the insert; an error leaves them as they are (the
  deferred \<open>Rollback\<close>).
\<close>

definition insertWithOutbox ::
  "(TransactionCreatedPayload \<Rightarrow> string + bytes) \<Rightarrow> CreateEnv \<Rightarrow> CreateTransactionRequest
     \<Rightarrow> DB \<Rightarrow> create_result" where
  "insertWithOutbox marshal env req db =
     (let transaction =
            \<lparr>tx_ID = c_txID env, tx_AccountID = req_AccountID req,
             tx_AmountCents = req_AmountCents req, tx_Currency = req_Currency req,
             tx_Type = req_Type req, tx_Status = TransactionStatusPending,
             tx_IdempotencyKey = req_IdempotencyKey req, tx_FailureReason = None,
             tx_Metadata = req_Metadata req,
             tx_CreatedAt = c_now env, tx_UpdatedAt = c_now env\<rparr>
      in case insert_transaction (cf_insert env) transaction db of
           Inl m \<Rightarrow>
             if m = unique_violation then
               (case reread_after_failed_insert (cf_reread env) db (req_AccountID req)
                       (req_IdempotencyKey req) of
                  Inr winner \<Rightarrow> (Inr winner, db)
                | Inl m' \<Rightarrow> (Inl (''failed to create transaction: '' @ m'), db))
             else (Inl (''failed to create transaction: '' @ m), db)
         | Inr tx1 \<Rightarrow>
             (let payload = payload_of transaction
              in case marshal payload of
                   Inl m \<Rightarrow> (Inl (''failed to marshal payload: '' @ m), db)
                 | Inr payloadBytes \<Rightarrow>
                     (case insert_outbox (cf_outbox env)
                             \<lparr>ob_ID = c_outboxID env, ob_AggregateType = ''transaction'',
                              ob_AggregateID = tx_ID transaction,
                              ob_EventType = ''transaction.created'',
                              ob_Payload = payloadBytes, ob_Status = ''PENDING'',
                              ob_CreatedAt = c_now env, ob_PublishedAt = None,
                              ob_PublishAttempts = 0, ob_LastError = None\<rparr> tx1 of
                        Inl m \<Rightarrow> (Inl (''failed to create outbox event: '' @ m), db)
                      | Inr tx2 \<Rightarrow>
                          (case cf_commit env of
                             Some m \<Rightarrow> (Inl (''failed to commit transaction: '' @ m), db)
                           | None \<Rightarrow> (Inr transaction, tx2)))))"

text \<open>
  Lines 35-100, then the rest. \<open>others\<close> is what other sessions commit between the
  idempotency \<open>SELECT\<close> of this call and its \<open>INSERT\<close>: the only way for the \<open>INSERT\<close> to
  meet a row that the \<open>SELECT\<close> did not see.
\<close>

definition CreateTransaction_between ::
  "(TransactionCreatedPayload \<Rightarrow> string + bytes) \<Rightarrow> CreateEnv \<Rightarrow> (DB \<Rightarrow> DB)
     \<Rightarrow> CreateTransactionRequest \<Rightarrow> DB \<Rightarrow> create_result" where
  "CreateTransaction_between marshal env others req db =
     (case cf_begin env of
        Some m \<Rightarrow> (Inl (''failed to begin transaction: '' @ m), db)
      | None \<Rightarrow>
     (case cf_check env of
        Some m \<Rightarrow> (Inl (''failed to check idempotency: '' @ m), db)
      | None \<Rightarrow>
     (case select_transaction_by_key db (req_AccountID req) (req_IdempotencyKey req) of
        Some existingTx \<Rightarrow> (Inr existingTx, db)
      | None \<Rightarrow>
     (case cf_account env of
        Some m \<Rightarrow> (Inl (''failed to validate account: '' @ m), db)
      | None \<Rightarrow>
     (case select_account_status db (req_AccountID req) of
        None \<Rightarrow> (Inl ''account not found'', db)
      | Some accountStatus \<Rightarrow>
          if accountStatus \<noteq> AccountStatusActive then (Inl ''account is not active'', db)
          else if req_AmountCents req \<le>s 0 then (Inl ''amount must be positive'', db)
          else insertWithOutbox marshal env req (others db))))))"

text \<open>A call that no other session interleaves with.\<close>

definition CreateTransaction ::
  "(TransactionCreatedPayload \<Rightarrow> string + bytes) \<Rightarrow> CreateEnv \<Rightarrow> CreateTransactionRequest
     \<Rightarrow> DB \<Rightarrow> create_result" where
  "CreateTransaction marshal env req db = CreateTransaction_between marshal env (\<lambda>d. d) req db"

text \<open>
  A call that races: the rival calls run, one after the other, between its \<open>SELECT\<close> and
  its \<open>INSERT\<close>.
\<close>

fun run_rivals ::
  "(TransactionCreatedPayload \<Rightarrow> string + bytes) \<Rightarrow> (CreateEnv \<times> CreateTransactionRequest) list
     \<Rightarrow> DB \<Rightarrow> DB" where
  "run_rivals marshal [] db = db"
| "run_rivals marshal ((env, req) # rivals) db =
     run_rivals marshal rivals (snd (CreateTransaction marshal env req db))"

definition CreateTransaction_raced ::
  "(TransactionCreatedPayload \<Rightarrow> string + bytes) \<Rightarrow> CreateEnv
     \<Rightarrow> (CreateEnv \<times> CreateTransactionRequest) list \<Rightarrow> CreateTransactionRequest \<Rightarrow> DB
     \<Rightarrow> create_result" where
  "CreateTransaction_raced marshal env rivals req db =
     CreateTransaction_between marshal env (run_rivals marshal rivals) req db"

text \<open>M calls, each with its environment, its rivals and its request.\<close>

record Call =
  call_env :: CreateEnv
  call_rivals :: "(CreateEnv \<times> CreateTransactionRequest) list"
  call_req :: CreateTransactionRequest

fun create_calls ::
  "(TransactionCreatedPayload \<Rightarrow> string + bytes) \<Rightarrow> Call list \<Rightarrow> DB
     \<Rightarrow> (string + Transaction) list \<times> DB" where
  "create_calls marshal [] db = ([], db)"
| "create_calls marshal (c # calls) db =
     (case CreateTransaction_raced marshal (call_env c) (call_rivals c) (call_req c) db of
        (r, db1) \<Rightarrow>
          (case create_calls marshal calls db1 of (rs, db2) \<Rightarrow> (r # rs, db2)))"

text \<open>The constraints and the coupling of the two tables, as predicates on the tables.\<close>

definition unique_keys :: "DB \<Rightarrow> bool" where
  "unique_keys db =
     distinct (map (\<lambda>t. (tx_AccountID t, tx_IdempotencyKey t)) (transactions db))"

definition outbox_rows_of :: "DB \<Rightarrow> uuid \<Rightarrow> OutboxRow list" where
  "outbox_rows_of db txid =
     filter (\<lambda>x. ob_AggregateType x = ''transaction'' \<and> ob_AggregateID x = txid)
       (outbox_events db)"

definition coupled :: "DB \<Rightarrow> bool" where
  "coupled db =
     ((\<forall>t \<in> set (transactions db). length (outbox_rows_of db (tx_ID t)) = 1)
      \<and> (\<forall>x \<in> set (outbox_events db). ob_AggregateType x = ''transaction'' \<longrightarrow>
            (\<exists>t \<in> set (transactions db). tx_ID t = ob_AggregateID x)))"

section \<open>Ingress: listing (packages service and handler)\<close>

text \<open>
  \<open>strconv.Atoi\<close> for a 64-bit \<open>int\<close>: an optional sign, then one or more decimal
  digits and nothing else, the value within the range of \<open>int\<close>.
\<close>

definition digit_val :: "char \<Rightarrow> nat option" where
  "digit_val c = map_of
     [(CHR ''0'', 0), (CHR ''1'', 1), (CHR ''2'', 2), (CHR ''3'', 3), (CHR ''4'', 4),
      (CHR ''5'', 5), (CHR ''6'', 6), (CHR ''7'', 7), (CHR ''8'', 8), (CHR ''9'', 9)] c"

fun digits_val :: "string \<Rightarrow> nat \<Rightarrow> nat option" where
  "digits_val [] n = Some n"
| "digits_val (c # cs) n =
     (case digit_val c of None \<Rightarrow> None | Some d \<Rightarrow> digits_val cs (n * 10 + d))"

definition Atoi :: "string \<Rightarrow> int option" where
  "Atoi s =
     (case s of
        [] \<Rightarrow> None
      | c # cs \<Rightarrow>
          (let ds = (if c = CHR ''-'' \<or> c = CHR ''+'' then cs else s)
           in if ds = [] then None
              else (case digits_val ds 0 of
                      None \<Rightarrow> None
                    | Some n \<Rightarrow>
                        (let v = (if c = CHR ''-'' then - int n else int n)
                         in if v < - (2 ^ 63) \<or> 2 ^ 63 - 1 < v then None else Some v))))"

text \<open>
  \<open>ListTransactions\<close> of the service: the rows of one account or of all, ordered by
  \<open>created_at\<close> descending, \<open>LIMIT\<close> and \<open>OFFSET\<close> applied (PostgreSQL refuses a negative
  one). SQL leaves the order of rows with equal \<open>created_at\<close> open; the model fixes one.
  The two faults are those of the query and of the row scan.
\<close>

definition service_ListTransactions ::
  "fault \<Rightarrow> fault \<Rightarrow> DB \<Rightarrow> uuid option \<Rightarrow> int \<Rightarrow> int \<Rightarrow> string + Transaction list" where
  "service_ListTransactions fquery fscan db accountID limit offset =
     (case fquery of
        Some m \<Rightarrow> Inl (''failed to query transactions: '' @ m)
      | None \<Rightarrow>
          if limit < 0
          then Inl ''failed to query transactions: pq: LIMIT must not be negative''
          else if offset < 0
          then Inl ''failed to query transactions: pq: OFFSET must not be negative''
          else (case fscan of
                  Some m \<Rightarrow> Inl (''failed to scan transaction: '' @ m)
                | None \<Rightarrow>
                    Inr (take (nat limit) (drop (nat offset)
                      (rev (sort_key tx_CreatedAt
                         (filter (\<lambda>t. case accountID of
                                          None \<Rightarrow> True
                                        | Some a \<Rightarrow> tx_AccountID t = a)
                            (transactions db))))))))"

text \<open>
  Requests and responses. Header and query values are looked up by name; \<open>Get\<close> returns
  the first value or the empty string. \<open>Header.Get\<close> canonicalises the name it is given,
  so the lookup of \<open>X-API-Key\<close> reads the entry \<open>X-Api-Key\<close>. What a handler writes is a
  status, headers and a body; a body written through \<open>json.NewEncoder\<close> is kept as the
  value that was encoded.
\<close>

record Request =
  r_Header :: "string \<Rightarrow> string list"
  r_Query :: "string \<Rightarrow> string list"

datatype Written =
    Raw bytes
  | ErrorJSON string "string option"
  | TransactionsJSON "Transaction list" int int

record Response =
  resp_Header :: "(string \<times> string) list"
  resp_Status :: int
  resp_Body :: "Written list"

definition Values_Get :: "(string \<Rightarrow> string list) \<Rightarrow> string \<Rightarrow> string" where
  "Values_Get vs key = (case vs key of [] \<Rightarrow> [] | v # _ \<Rightarrow> v)"

definition Header_Set :: "string \<Rightarrow> string \<Rightarrow> (string \<times> string) list \<Rightarrow> (string \<times> string) list" where
  "Header_Set key v h = (key, v) # filter (\<lambda>kv. fst kv \<noteq> key) h"

definition respondJSON :: "Response \<Rightarrow> int \<Rightarrow> Written \<Rightarrow> Response" where
  "respondJSON w status data =
     w\<lparr>resp_Header := Header_Set ''Content-Type'' ''application/json'' (resp_Header w),
       resp_Status := status,
       resp_Body := resp_Body w @ [data]\<rparr>"

definition respondError :: "Response \<Rightarrow> int \<Rightarrow> string \<Rightarrow> string option \<Rightarrow> Response" where
  "respondError w status message err = respondJSON w status (ErrorJSON message err)"

text \<open>Lines 107-126 of the handler, one definition per query parameter.\<close>

definition parseLimit :: "string \<Rightarrow> int" where
  "parseLimit limitStr =
     (if limitStr \<noteq> [] then
        (case Atoi limitStr of
           Some l \<Rightarrow> if l > 0 \<and> l \<le> 100 then l else 50
         | None \<Rightarrow> 50)
      else 50)"

definition parseOffset :: "string \<Rightarrow> int" where
  "parseOffset offsetStr =
     (if offsetStr \<noteq> [] then
        (case Atoi offsetStr of
           Some o' \<Rightarrow> if o' \<ge> 0 then o' else 0
         | None \<Rightarrow> 0)
      else 0)"

definition parseAccountID :: "(string \<Rightarrow> uuid option) \<Rightarrow> string \<Rightarrow> uuid option" where
  "parseAccountID uuidParse accountIDStr =
     (if accountIDStr \<noteq> [] then uuidParse accountIDStr else None)"

text \<open>
  \<open>ListTransactions\<close> of the handler; \<open>uuidParse\<close> is \<open>uuid.Parse\<close>, with \<open>None\<close> for its
  error.
\<close>

definition handler_ListTransactions ::
  "(string \<Rightarrow> uuid option) \<Rightarrow> fault \<Rightarrow> fault \<Rightarrow> DB \<Rightarrow> Response \<Rightarrow> Request \<Rightarrow> Response" where
  "handler_ListTransactions uuidParse fquery fscan db w r =
     (let accountIDStr = Values_Get (r_Query r) ''account_id'';
          limitStr = Values_Get (r_Query r) ''limit'';
          offsetStr = Values_Get (r_Query r) ''offset'';
          limit = parseLimit limitStr;
          offset = parseOffset offsetStr;
          accountID = parseAccountID uuidParse accountIDStr
      in case service_ListTransactions fquery fscan db accountID limit offset of
           Inl err \<Rightarrow> respondError w 500 ''Failed to list transactions'' (Some err)
         | Inr txs \<Rightarrow> respondJSON w 200 (TransactionsJSON txs limit offset))"

section \<open>Ingress: API key middleware and configuration\<close>

text \<open>\<open>getEnv\<close> of package config; \<open>environ\<close> is \<open>os.Getenv\<close>, empty for an unset variable.\<close>

definition getEnv :: "(string \<Rightarrow> string) \<Rightarrow> string \<Rightarrow> string \<Rightarrow> string" where
  "getEnv environ key defaultValue = (if environ key \<noteq> [] then environ key else defaultValue)"

text \<open>Of the fields of \<open>Config\<close> only the API key matters here.\<close>

record Config =
  cfg_APIKey :: string

definition LoadConfig :: "(string \<Rightarrow> string) \<Rightarrow> Config" where
  "LoadConfig environ = \<lparr>cfg_APIKey = getEnv environ ''API_KEY'' []\<rparr>"

definition HasPrefix :: "string \<Rightarrow> string \<Rightarrow> bool" where
  "HasPrefix s pre = (take (length pre) s = pre)"

definition TrimPrefix :: "string \<Rightarrow> string \<Rightarrow> string" where
  "TrimPrefix s pre = (if HasPrefix s pre then drop (length pre) s else s)"

text \<open>
  A handler writes to the response and acts on the state behind it (the database); the
  middleware wraps a handler into a handler.
\<close>

type_synonym 'st handler = "Request \<Rightarrow> Response \<times> 'st \<Rightarrow> Response \<times> 'st"

definition APIKeyAuth :: "string \<Rightarrow> 'st handler \<Rightarrow> 'st handler" where
  "APIKeyAuth expectedKey next r ws =
     (if expectedKey = [] then next r ws
      else
        (let authHeader = Values_Get (r_Header r) ''X-Api-Key'';
             authHeader =
               (if authHeader = [] then
                  (let authHeader = Values_Get (r_Header r) ''Authorization''
                   in if HasPrefix authHeader ''Bearer ''
                      then TrimPrefix authHeader ''Bearer '' else authHeader)
                else authHeader)
         in if authHeader \<noteq> expectedKey then
              (case ws of (w, st) \<Rightarrow>
                 (w\<lparr>resp_Header := Header_Set ''Content-Type'' ''application/json'' (resp_Header w),
                    resp_Status := 401,
                    resp_Body := resp_Body w @ [Raw ''{\"error\": \"Unauthorized\"}'']\<rparr>, st))
            else next r ws))"

text \<open>The \<open>/v1\<close> route of \<open>main\<close>: every handler below it runs behind the middleware.\<close>

definition v1_route :: "Config \<Rightarrow> 'st handler \<Rightarrow> 'st handler" where
  "v1_route cfg h = APIKeyAuth (cfg_APIKey cfg) h"

section \<open>Concrete scenarios\<close>

text \<open>
  One USD account with balance 0 and three PENDING transactions against it, as the
  ingress leaves them: the DEBIT of 10000 cents of scenario S4, the CREDIT of 10000 cents
  of scenario S1 and the CREDIT of 1 cent in EUR of scenario S5. The decoder stands for
  \<open>json.Unmarshal\<close> on the three payloads.
\<close>

definition ex_account :: Account where
  "ex_account = \<lparr>acc_ID = 1, acc_CreatedAt = 0, acc_UpdatedAt = 0, acc_Currency = ''USD'',
     acc_BalanceCents = 0, acc_Status = AccountStatusActive\<rparr>"

definition ex_debit :: Transaction where
  "ex_debit = \<lparr>tx_ID = 10, tx_AccountID = 1, tx_AmountCents = 10000, tx_Currency = ''USD'',
     tx_Type = TransactionTypeDebit, tx_Status = TransactionStatusPending,
     tx_IdempotencyKey = ''k3'', tx_FailureReason = None, tx_Metadata = [],
     tx_CreatedAt = 1, tx_UpdatedAt = 1\<rparr>"

definition ex_credit :: Transaction where
  "ex_credit = \<lparr>tx_ID = 11, tx_AccountID = 1, tx_AmountCents = 10000, tx_Currency = ''USD'',
     tx_Type = TransactionTypeCredit, tx_Status = TransactionStatusPending,
     tx_IdempotencyKey = ''k1'', tx_FailureReason = None, tx_Metadata = [],
     tx_CreatedAt = 2, tx_UpdatedAt = 2\<rparr>"

definition ex_eur :: Transaction where
  "ex_eur = \<lparr>tx_ID = 12, tx_AccountID = 1, tx_AmountCents = 1, tx_Currency = ''EUR'',
     tx_Type = TransactionTypeCredit, tx_Status = TransactionStatusPending,
     tx_IdempotencyKey = ''k4'', tx_FailureReason = None, tx_Metadata = [],
     tx_CreatedAt = 3, tx_UpdatedAt = 3\<rparr>"

definition ex_unmarshal :: "bytes \<Rightarrow> string + TransactionCreatedPayload" where
  "ex_unmarshal b =
     (if b = ''debit-10000'' then Inr (payload_of ex_debit)
      else if b = ''credit-10000'' then Inr (payload_of ex_credit)
      else if b = ''credit-eur'' then Inr (payload_of ex_eur)
      else Inl ''unexpected end of JSON input'')"

definition ex_envelope :: "uuid \<Rightarrow> Transaction \<Rightarrow> bytes \<Rightarrow> EventEnvelope" where
  "ex_envelope eid t b = \<lparr>ev_EventID = eid, ev_EventType = ''transaction.created'',
     ev_OccurredAt = tx_CreatedAt t, ev_TraceID = [],
     ev_IdempotencyKey = tx_IdempotencyKey t, ev_AggregateID = tx_ID t, ev_Payload = b\<rparr>"

definition ex_debit_envelope :: EventEnvelope where
  "ex_debit_envelope = ex_envelope 100 ex_debit ''debit-10000''"

definition ex_credit_envelope :: EventEnvelope where
  "ex_credit_envelope = ex_envelope 101 ex_credit ''credit-10000''"

definition ex_eur_envelope :: EventEnvelope where
  "ex_eur_envelope = ex_envelope 102 ex_eur ''credit-eur''"

definition ex_db :: DB where
  "ex_db = \<lparr>accounts = [ex_account], transactions = [ex_debit, ex_credit, ex_eur],
     outbox_events = [], processed_events = []\<rparr>"

definition no_faults :: "timestamp \<Rightarrow> ProcEnv" where
  "no_faults now = \<lparr>pf_check = None, pf_begin = None, pf_insert = None,
     pf_update_status = None, pf_lock = None, pf_fail = None, pf_balance = None,
     pf_processed = None, pf_commit = None, p_now = now\<rparr>"

definition begin_fails :: "timestamp \<Rightarrow> ProcEnv" where
  "begin_fails now = (no_faults now)\<lparr>pf_begin := Some ''connection refused''\<rparr>"

text \<open>
  A message of the \<open>transactions\<close> topic carrying the CREDIT envelope, a decoder for
  the envelopes used here, and a consumer environment in which every attempt fails to
  open its database transaction.
\<close>

definition ex_message :: Message where
  "ex_message = \<lparr>msg_Partition = 3, msg_Offset = 42, msg_Key = ''tx-11'',
     msg_Value = ''envelope-credit-10000'',
     msg_Headers = [(''event_type'', ''transaction.created''), (''aggregate_id'', ''tx-11'')]\<rparr>"

definition ex_message_next :: Message where
  "ex_message_next = \<lparr>msg_Partition = 3, msg_Offset = 43, msg_Key = ''tx-10'',
     msg_Value = ''envelope-debit-10000'',
     msg_Headers = [(''event_type'', ''transaction.created''), (''aggregate_id'', ''tx-10'')]\<rparr>"

definition ex_unmarshalEnvelope :: "bytes \<Rightarrow> string + EventEnvelope" where
  "ex_unmarshalEnvelope b =
     (if b = ''envelope-credit-10000'' then Inr ex_credit_envelope
      else if b = ''envelope-credit-eur'' then Inr ex_eur_envelope
      else if b = ''envelope-debit-10000'' then Inr ex_debit_envelope
      else Inl ''invalid character'')"

definition ex_cons_env :: ConsEnv where
  "ex_cons_env = \<lparr>cn_fetch = None, cn_attempts = (\<lambda>i. begin_fails (5 + i)),
     cn_dlq_write = None, cn_commit = None\<rparr>"

definition ex_broker :: Broker where
  "ex_broker = \<lparr>pending = [], committed = [], dlq_topic = []\<rparr>"

text \<open>
  Two iterations of the consumer on a log of two messages: the CREDIT at offset 42,
  whose five attempts all fail and whose DLQ write fails too, then the DEBIT at offset
  43, handled without any fault.
\<close>

definition ex_consumer_run :: "string option list \<times> DB \<times> Broker" where
  "ex_consumer_run =
     Start ex_unmarshalEnvelope ex_unmarshal 5
       [ex_cons_env\<lparr>cn_dlq_write := Some ''broker unavailable''\<rparr>,
        \<lparr>cn_fetch = None, cn_attempts = (\<lambda>i. no_faults (20 + i)),
         cn_dlq_write = None, cn_commit = None\<rparr>]
       (ex_db, ex_broker\<lparr>pending := [ex_message, ex_message_next]\<rparr>)"

text \<open>
  The outbox row of the DEBIT, and the envelope of a second publish of that row: the
  relay draws a new event id for it.
\<close>

definition ex_outbox_debit :: outboxEvent where
  "ex_outbox_debit = \<lparr>oe_ID = 200, oe_AggregateType = ''transaction'', oe_AggregateID = 10,
     oe_EventType = ''transaction.created'', oe_Payload = ''debit-10000'', oe_CreatedAt = 1\<rparr>"

definition ex_republished :: EventEnvelope where
  "ex_republished = ex_debit_envelope\<lparr>ev_EventID := 103\<rparr>"

text \<open>A handler that answers 200 and counts its calls; requests for the HTTP layer.\<close>

definition ex_handler :: "nat handler" where
  "ex_handler r ws = (case ws of (w, n) \<Rightarrow> (w\<lparr>resp_Status := 200\<rparr>, Suc n))"

definition ex_response :: Response where
  "ex_response = \<lparr>resp_Header = [], resp_Status = 0, resp_Body = []\<rparr>"

definition ex_request :: Request where
  "ex_request = \<lparr>r_Header = (\<lambda>k. []), r_Query = (\<lambda>k. [])\<rparr>"

definition ex_uuidParse :: "string \<Rightarrow> uuid option" where
  "ex_uuidParse s = (if s = ''00000000-0000-0000-0000-000000000001'' then Some 1 else None)"

definition ex_list_request :: Request where
  "ex_list_request = \<lparr>r_Header = (\<lambda>k. []),
     r_Query = (\<lambda>k. if k = ''limit'' then [''abc'']
                     else if k = ''offset'' then [''-3'']
                     else if k = ''account_id'' then [''not-a-uuid''] else [])\<rparr>"

text \<open>
  The ingress side: the account alone, an encoder standing for \<open>json.Marshal\<close>, a
  fault-free environment, a request, and two calls with the same account and key. The
  first call races with a rival call that carries another amount; the second differs
  in amount and direction.
\<close>

definition ex_marshal :: "TransactionCreatedPayload \<Rightarrow> string + bytes" where
  "ex_marshal p = Inr (''payload:'' @ pl_IdempotencyKey p)"

definition ex_ingress_db :: DB where
  "ex_ingress_db = \<lparr>accounts = [ex_account], transactions = [], outbox_events = [],
     processed_events = []\<rparr>"

definition ex_create_env :: "uuid \<Rightarrow> uuid \<Rightarrow> timestamp \<Rightarrow> CreateEnv" where
  "ex_create_env txid obid now = \<lparr>cf_begin = None, cf_check = None, cf_account = None,
     cf_insert = None, cf_reread = None, cf_outbox = None, cf_commit = None,
     c_txID = txid, c_outboxID = obid, c_now = now\<rparr>"

definition ex_req :: CreateTransactionRequest where
  "ex_req = \<lparr>req_AccountID = 1, req_AmountCents = 10000, req_Currency = ''USD'',
     req_Type = TransactionTypeCredit, req_IdempotencyKey = ''k1'', req_Metadata = []\<rparr>"

definition ex_calls :: "Call list" where
  "ex_calls =
     [\<lparr>call_env = ex_create_env 20 30 5,
       call_rivals = [(ex_create_env 21 31 5, ex_req\<lparr>req_AmountCents := 999\<rparr>)],
       call_req = ex_req\<rparr>,
      \<lparr>call_env = ex_create_env 22 32 6, call_rivals = [],
       call_req = ex_req\<lparr>req_AmountCents := 5, req_Type := TransactionTypeDebit\<rparr>\<rparr>]"

definition ex_winner :: Transaction where
  "ex_winner = \<lparr>tx_ID = 21, tx_AccountID = 1, tx_AmountCents = 999, tx_Currency = ''USD'',
     tx_Type = TransactionTypeCredit, tx_Status = TransactionStatusPending,
     tx_IdempotencyKey = ''k1'', tx_FailureReason = None, tx_Metadata = [],
     tx_CreatedAt = 5, tx_UpdatedAt = 5\<rparr>"

lemmas ex_defs = ex_account_def ex_debit_def ex_credit_def ex_eur_def payload_of_def
  ex_unmarshal_def ex_envelope_def ex_debit_envelope_def ex_credit_envelope_def
  ex_eur_envelope_def ex_db_def no_faults_def begin_fails_def

section \<open>Verification: the applier\<close>

lemma lock_account_unaffected [simp]:
  "lock_account (update_status_processing now txid db) aid = lock_account db aid"
  "lock_account (db\<lparr>processed_events := ps\<rparr>) aid = lock_account db aid"
  by (simp_all add: lock_account_def update_status_processing_def)

lemma mark_failed_after_processing:
  "transactions (mark_failed now r txid (update_status_processing now txid db)) =
   transactions (mark_failed now r txid db)"
  by (auto simp: mark_failed_def update_status_processing_def)

lemma applyInTx_cases:
  assumes "select_processed_event db (ev_EventID e) = None"
  shows "snd (applyInTx env e p db) = db
       \<or> (\<exists>a. lock_account db (pl_AccountID p) = Some a
              \<and> (\<exists>t \<in> set (transactions db). tx_ID t = pl_TransactionID p)
              \<and> (snd (applyInTx env e p db) =
                    mark_processed (p_now env) (pl_TransactionID p)
                      (update_balance (p_now env)
                         (if pl_Type p = TransactionTypeCredit
                          then acc_BalanceCents a + pl_AmountCents p
                          else acc_BalanceCents a - pl_AmountCents p)
                         (pl_AccountID p) (claim_row env e p db))
                  \<or> (pl_Type p = TransactionTypeDebit \<and> (\<exists>reason.
                      snd (applyInTx env e p db) =
                        mark_failed (p_now env) reason (pl_TransactionID p) (claim_row env e p db)))))"
  using assms
  apply (simp add: applyInTx_def insert_processed_event_def claim_row_def split: option.splits)
  apply (auto simp: settle_def Let_def split: option.splits)
  done


lemma select_processed_event_claim_row [simp]:
  "select_processed_event (claim_row env e p db) (ev_EventID e) \<noteq> None"
  by (auto simp: select_processed_event_def claim_row_def update_status_processing_def
        find_None_iff)

lemma select_processed_event_marks [simp]:
  "select_processed_event (mark_processed now txid db) eid = select_processed_event db eid"
  "select_processed_event (mark_failed now r txid db) eid = select_processed_event db eid"
  "select_processed_event (update_balance now nb aid db) eid = select_processed_event db eid"
  by (simp_all add: select_processed_event_def mark_processed_def mark_failed_def
        update_balance_def)

lemma ProcessTransactionCreated_recorded:
  assumes "select_processed_event db (ev_EventID e) \<noteq> None"
  shows "snd (ProcessTransactionCreated un env e db) = db"
    and "un (ev_Payload e) = Inr p \<Longrightarrow> pf_check env = None \<Longrightarrow>
         fst (ProcessTransactionCreated un env e db) = (False, None)"
  using assms by (auto simp: ProcessTransactionCreated_def split: sum.splits option.splits)

lemma ProcessTransactionCreated_fresh:
  assumes "select_processed_event db (ev_EventID e) = None"
  shows "snd (ProcessTransactionCreated un env e db) = db
       \<or> select_processed_event (snd (ProcessTransactionCreated un env e db)) (ev_EventID e) \<noteq> None"
proof (cases "un (ev_Payload e)")
  case (Inl m)
  then show ?thesis by (simp add: ProcessTransactionCreated_def)
next
  case (Inr p)
  show ?thesis
  proof (cases "pf_check env")
    case (Some m)
    with Inr show ?thesis by (simp add: ProcessTransactionCreated_def)
  next
    case None
    with Inr assms have "ProcessTransactionCreated un env e db = applyInTx env e p db"
      by (simp add: ProcessTransactionCreated_def)
    with applyInTx_cases [OF assms, of env p] show ?thesis
      by auto
  qed
qed

lemma deliver_recorded:
  assumes "select_processed_event db (ev_EventID e) \<noteq> None"
  shows "snd (deliver un envs e db) = db"
  using assms
proof (induction envs)
  case Nil
  then show ?case by simp
next
  case (Cons env envs)
  then show ?case
    using ProcessTransactionCreated_recorded(1) [of db e un env]
    by (simp split: prod.splits) (metis snd_conv)
qed

lemma deliver_recorded_results:
  assumes "select_processed_event db (ev_EventID e) \<noteq> None"
    and "un (ev_Payload e) = Inr p"
  shows "\<forall>(env, r) \<in> set (zip envs (fst (deliver un envs e db))).
           pf_check env = None \<longrightarrow> r = (False, None)"
  using assms
proof (induction envs)
  case Nil
  then show ?case by simp
next
  case (Cons env envs)
  obtain r db1 where r: "ProcessTransactionCreated un env e db = (r, db1)"
    by (cases "ProcessTransactionCreated un env e db")
  have db1: "db1 = db"
    using ProcessTransactionCreated_recorded(1) [OF Cons.prems(1), of un env] r by simp
  have "pf_check env = None \<Longrightarrow> r = (False, None)"
    using ProcessTransactionCreated_recorded(2) [of db e un p env] Cons.prems r by simp
  then show ?case
    using Cons r db1 by (auto split: prod.splits)
qed

lemma deliver_collapses:
  "snd (deliver un envs e db) = db
   \<or> (select_processed_event db (ev_EventID e) = None
      \<and> select_processed_event (snd (deliver un envs e db)) (ev_EventID e) \<noteq> None
      \<and> (\<exists>env \<in> set envs. snd (deliver un envs e db) = snd (ProcessTransactionCreated un env e db)))"
proof (induction envs)
  case Nil
  then show ?case by simp
next
  case (Cons env envs)
  obtain r db1 where r: "ProcessTransactionCreated un env e db = (r, db1)"
    by (cases "ProcessTransactionCreated un env e db")
  have step: "snd (deliver un (env # envs) e db) = snd (deliver un envs e db1)"
    using r by (simp split: prod.splits)
  show ?case
  proof (cases "select_processed_event db (ev_EventID e) = None")
    case False
    then show ?thesis using deliver_recorded [of db e un "env # envs"] by simp
  next
    case True
    from ProcessTransactionCreated_fresh [OF True, of un env] r
    consider "db1 = db" | "db1 \<noteq> db" "select_processed_event db1 (ev_EventID e) \<noteq> None"
      by auto
    then show ?thesis
    proof cases
      case 1
      with Cons.IH step show ?thesis by auto
    next
      case 2
      then have "snd (deliver un envs e db1) = db1"
        using deliver_recorded by blast
      with step 2 True r show ?thesis by auto
    qed
  qed
qed

lemma find_unique_row:
  assumes "distinct (map f xs)" and "find (\<lambda>r. f r = k) xs = Some a"
    and "r \<in> set xs" and "f r = k"
  shows "r = a"
proof -
  from assms(2) have "a \<in> set xs" and "f a = k"
    by (auto simp: find_Some_iff)
  with assms(1,3,4) show ?thesis
    by (metis distinct_map inj_onD)
qed

lemma balances_update_balance:
  assumes "distinct (map acc_ID (accounts db))"
    and "lock_account db aid = Some a"
  shows "balances (update_balance now (g (acc_BalanceCents a)) aid db) =
         map (\<lambda>(i, b). (i, if i = aid then g b else b)) (balances db)"
proof -
  have "\<And>r. r \<in> set (accounts db) \<Longrightarrow> acc_ID r = aid \<Longrightarrow> r = a"
    using find_unique_row [OF assms(1), of aid a] assms(2) by (simp add: lock_account_def)
  then show ?thesis
    by (auto simp: balances_def update_balance_def)
qed

lemma balances_unaffected [simp]:
  "balances (mark_processed now txid db) = balances db"
  "balances (mark_failed now r txid db) = balances db"
  by (simp_all add: balances_def mark_processed_def mark_failed_def)

lemma accounts_claim_row [simp]: "accounts (claim_row env e p db) = accounts db"
  by (simp add: claim_row_def update_status_processing_def)

lemma lock_account_claim_row [simp]: "lock_account (claim_row env e p db) aid = lock_account db aid"
  by (simp add: lock_account_def)

lemma processed_events_forms [simp]:
  "processed_events (mark_processed now txid db) = processed_events db"
  "processed_events (mark_failed now r txid db) = processed_events db"
  "processed_events (update_balance now nb aid db) = processed_events db"
  "processed_events (claim_row env e p db) = processed_events db @
     [\<lparr>pe_EventID = ev_EventID e, pe_TransactionID = pl_TransactionID p,
       pe_ProcessedAt = p_now env\<rparr>]"
  by (simp_all add: mark_processed_def mark_failed_def update_balance_def claim_row_def
        update_status_processing_def)

lemma map_ids:
  "(\<And>x. f (g x) = f x) \<Longrightarrow> map f (map g xs) = map f xs"
  by (induction xs) simp_all

lemma transactions_ids_forms [simp]:
  "map tx_ID (transactions (mark_processed now txid db)) = map tx_ID (transactions db)"
  "map tx_ID (transactions (mark_failed now r txid db)) = map tx_ID (transactions db)"
  "map tx_ID (transactions (update_balance now nb aid db)) = map tx_ID (transactions db)"
  "map tx_ID (transactions (claim_row env e p db)) = map tx_ID (transactions db)"
  by (simp_all add: mark_processed_def mark_failed_def update_balance_def claim_row_def
        update_status_processing_def map_ids)

lemma status_after_mark_processed:
  assumes "t \<in> set (transactions (mark_processed now txid db))" and "tx_ID t = txid"
  shows "tx_Status t = TransactionStatusProcessed"
proof -
  obtain x where "t = (if tx_ID x = txid
      then x\<lparr>tx_Status := TransactionStatusProcessed, tx_UpdatedAt := now\<rparr> else x)"
    using assms(1) unfolding mark_processed_def by fastforce
  with assms(2) show ?thesis
    by (cases "tx_ID x = txid") simp_all
qed

lemma status_after_mark_failed:
  assumes "t \<in> set (transactions (mark_failed now r txid db))" and "tx_ID t = txid"
  shows "tx_Status t = TransactionStatusFailed"
proof -
  obtain x where "t = (if tx_ID x = txid
      then x\<lparr>tx_Status := TransactionStatusFailed, tx_FailureReason := Some r,
             tx_UpdatedAt := now\<rparr> else x)"
    using assms(1) unfolding mark_failed_def by fastforce
  with assms(2) show ?thesis
    by (cases "tx_ID x = txid") simp_all
qed

lemma fresh_filter_empty:
  "select_processed_event db eid = None \<Longrightarrow>
     filter (\<lambda>r. pe_EventID r = eid) (processed_events db) = []"
  by (auto simp: select_processed_event_def find_None_iff filter_empty_conv)

lemma fresh_not_in_ids:
  "select_processed_event db eid = None \<Longrightarrow> eid \<notin> pe_EventID ` set (processed_events db)"
  by (auto simp: select_processed_event_def find_None_iff)

lemma applyInTx_conflict:
  assumes "select_processed_event db (ev_EventID e) \<noteq> None"
    and "pf_begin env = None" and "pf_insert env = None"
  shows "applyInTx env e p db = ((False, None), db)"
  using assms by (simp add: applyInTx_def insert_processed_event_def)

lemma single_delivery_outcome:
  assumes dec: "un (ev_Payload e) = Inr p"
    and pk: "distinct (map pe_EventID (processed_events db))"
    and pka: "distinct (map acc_ID (accounts db))"
    and fresh: "select_processed_event db (ev_EventID e) = None"
    and changed: "snd (ProcessTransactionCreated un env e db) \<noteq> db"
  defines "db' \<equiv> snd (ProcessTransactionCreated un env e db)"
  shows "distinct (map pe_EventID (processed_events db'))
       \<and> length (filter (\<lambda>r. pe_EventID r = ev_EventID e) (processed_events db')) = 1
       \<and> (\<exists>t \<in> set (transactions db'). tx_ID t = pl_TransactionID p)
       \<and> ((\<forall>t \<in> set (transactions db'). tx_ID t = pl_TransactionID p \<longrightarrow>
               tx_Status t = TransactionStatusProcessed)
            \<and> balances db' = map (\<lambda>(i, b). (i, if i = pl_AccountID p
                 then (if pl_Type p = TransactionTypeCredit then b + pl_AmountCents p
                       else b - pl_AmountCents p) else b)) (balances db)
          \<or> (\<forall>t \<in> set (transactions db'). tx_ID t = pl_TransactionID p \<longrightarrow>
               tx_Status t = TransactionStatusFailed)
            \<and> accounts db' = accounts db)"
proof -
  have chk: "pf_check env = None"
    using changed dec by (auto simp: ProcessTransactionCreated_def split: option.splits)
  have eq: "db' = snd (applyInTx env e p db)"
    using dec chk fresh by (simp add: db'_def ProcessTransactionCreated_def)
  let ?row = "\<lparr>pe_EventID = ev_EventID e, pe_TransactionID = pl_TransactionID p,
                pe_ProcessedAt = p_now env\<rparr>"
  let ?g = "\<lambda>b. if pl_Type p = TransactionTypeCredit then b + pl_AmountCents p
                else b - pl_AmountCents p"
  from applyInTx_cases [OF fresh, of env p] changed eq db'_def
  obtain a where a: "lock_account db (pl_AccountID p) = Some a"
    and tx: "\<exists>t \<in> set (transactions db). tx_ID t = pl_TransactionID p"
    and form: "db' = mark_processed (p_now env) (pl_TransactionID p)
                 (update_balance (p_now env) (?g (acc_BalanceCents a)) (pl_AccountID p)
                    (claim_row env e p db))
             \<or> (\<exists>reason. db' = mark_failed (p_now env) reason (pl_TransactionID p)
                    (claim_row env e p db))"
    by auto
  have pe: "processed_events db' = processed_events db @ [?row]"
    using form by auto
  have d: "distinct (map pe_EventID (processed_events db'))"
    using pk fresh_not_in_ids [OF fresh] by (simp add: pe)
  have c: "length (filter (\<lambda>r. pe_EventID r = ev_EventID e) (processed_events db')) = 1"
    by (simp add: pe fresh_filter_empty [OF fresh])
  have ids: "map tx_ID (transactions db') = map tx_ID (transactions db)"
    using form by auto
  have ex: "\<exists>t \<in> set (transactions db'). tx_ID t = pl_TransactionID p"
  proof -
    from tx have "pl_TransactionID p \<in> set (map tx_ID (transactions db))"
      by (metis image_eqI set_map)
    then have "pl_TransactionID p \<in> set (map tx_ID (transactions db'))" by (simp only: ids)
    then show ?thesis by auto
  qed
  from form show ?thesis
  proof
    assume f: "db' = mark_processed (p_now env) (pl_TransactionID p)
                 (update_balance (p_now env) (?g (acc_BalanceCents a)) (pl_AccountID p)
                    (claim_row env e p db))"
    have st: "\<forall>t \<in> set (transactions db'). tx_ID t = pl_TransactionID p \<longrightarrow>
               tx_Status t = TransactionStatusProcessed"
      unfolding f using status_after_mark_processed by blast
    have "balances db' = balances (update_balance (p_now env) (?g (acc_BalanceCents a))
             (pl_AccountID p) (claim_row env e p db))"
      by (simp add: f)
    also have "\<dots> = map (\<lambda>(i, b). (i, if i = pl_AccountID p then ?g b else b))
             (balances (claim_row env e p db))"
      by (rule balances_update_balance) (simp_all add: pka a)
    also have "balances (claim_row env e p db) = balances db"
      by (simp add: balances_def)
    finally show ?thesis using d c ex st by simp
  next
    assume "\<exists>reason. db' = mark_failed (p_now env) reason (pl_TransactionID p)
                    (claim_row env e p db)"
    then obtain reason where f: "db' = mark_failed (p_now env) reason (pl_TransactionID p)
                    (claim_row env e p db)" ..
    have st: "\<forall>t \<in> set (transactions db'). tx_ID t = pl_TransactionID p \<longrightarrow>
               tx_Status t = TransactionStatusFailed"
      unfolding f using status_after_mark_failed by blast
    have "accounts db' = accounts db"
      by (simp add: f mark_failed_def)
    then show ?thesis using d c ex st by simp
  qed
qed

text \<open>
  Claim C1. One envelope with a decodable payload is delivered K times, whatever the
  database faults of each delivery, to tables whose primary keys hold. Then
  \<^item> \<open>processed_events\<close> still has one row per envelope id;
  \<^item> if the envelope id was already recorded, no delivery writes anything and every
    delivery whose lookup runs returns success (\<open>shouldRetry = false\<close>, no error); the
    same holds for a call that only meets the recorded id at its \<open>INSERT\<close>, another
    worker having claimed it in between;
  \<^item> otherwise either nothing was committed and the tables are as before, or exactly one
    row for the envelope id now exists, the transaction row exists, and either every row
    of the transaction is PROCESSED and the balance of the payload's account moved by
    exactly the amount (added for CREDIT, subtracted otherwise, in 64-bit arithmetic) while
    all other balances are as before, or every row of the transaction is FAILED and the
    account rows are as before.
  The amount is the one the payload carries; the ingress copies it from the transaction
  row (\<open>payload_of\<close>).
\<close>

theorem C1_applier_idempotent:
  assumes dec: "unmarshal (ev_Payload envelope) = Inr payload"
    and pk: "distinct (map pe_EventID (processed_events db))"
    and pka: "distinct (map acc_ID (accounts db))"
  shows "(let eid = ev_EventID envelope; txid = pl_TransactionID payload;
              aid = pl_AccountID payload; amt = pl_AmountCents payload;
              rs = fst (deliver unmarshal envs envelope db);
              db' = snd (deliver unmarshal envs envelope db)
          in distinct (map pe_EventID (processed_events db'))
           \<and> (select_processed_event db eid \<noteq> None \<longrightarrow>
                db' = db
              \<and> (\<forall>(env, r) \<in> set (zip envs rs). pf_check env = None \<longrightarrow> r = (False, None))
              \<and> (\<forall>env. pf_begin env = None \<and> pf_insert env = None \<longrightarrow>
                    applyInTx env envelope payload db = ((False, None), db)))
           \<and> (select_processed_event db eid = None \<longrightarrow>
                db' = db
              \<or> length (filter (\<lambda>r. pe_EventID r = eid) (processed_events db')) = 1
                \<and> (\<exists>t \<in> set (transactions db'). tx_ID t = txid)
                \<and> ((\<forall>t \<in> set (transactions db'). tx_ID t = txid \<longrightarrow>
                        tx_Status t = TransactionStatusProcessed)
                     \<and> balances db' = map (\<lambda>(i, b). (i, if i = aid
                          then (if pl_Type payload = TransactionTypeCredit then b + amt
                                else b - amt) else b)) (balances db)
                   \<or> (\<forall>t \<in> set (transactions db'). tx_ID t = txid \<longrightarrow>
                        tx_Status t = TransactionStatusFailed)
                     \<and> accounts db' = accounts db)))"
proof -
  let ?db' = "snd (deliver unmarshal envs envelope db)"
  have rec: "select_processed_event db (ev_EventID envelope) \<noteq> None \<Longrightarrow>
      ?db' = db
      \<and> (\<forall>(env, r) \<in> set (zip envs (fst (deliver unmarshal envs envelope db))).
            pf_check env = None \<longrightarrow> r = (False, None))
      \<and> (\<forall>env. pf_begin env = None \<and> pf_insert env = None \<longrightarrow>
            applyInTx env envelope payload db = ((False, None), db))"
    using deliver_recorded [of db envelope unmarshal envs]
      deliver_recorded_results [of db envelope unmarshal payload envs] dec
      applyInTx_conflict [of db envelope _ payload]
    by blast
  from deliver_collapses [of unmarshal envs envelope db]
  consider (same) "?db' = db"
    | (once) env where "select_processed_event db (ev_EventID envelope) = None"
        "?db' \<noteq> db" "?db' = snd (ProcessTransactionCreated unmarshal env envelope db)"
    by blast
  then show ?thesis
  proof cases
    case same
    with pk rec show ?thesis by (auto simp: Let_def)
  next
    case once
    from single_delivery_outcome [of unmarshal envelope payload db env] dec pk pka once
    show ?thesis by (simp add: Let_def)
  qed
qed

theorem C1_applier_idempotent_witness:
  "fst (deliver ex_unmarshal [begin_fails 5, no_faults 6, no_faults 7] ex_credit_envelope ex_db)
     = [(True, Some ''failed to begin transaction: connection refused''),
        (False, None), (False, None)]
   \<and> balances (snd (deliver ex_unmarshal [begin_fails 5, no_faults 6, no_faults 7]
        ex_credit_envelope ex_db)) = [(1, 10000)]
   \<and> map tx_Status (transactions (snd (deliver ex_unmarshal
        [begin_fails 5, no_faults 6, no_faults 7] ex_credit_envelope ex_db)))
       = [TransactionStatusPending, TransactionStatusProcessed, TransactionStatusPending]
   \<and> map pe_EventID (processed_events (snd (deliver ex_unmarshal
        [begin_fails 5, no_faults 6, no_faults 7] ex_credit_envelope ex_db))) = [101]"
  using C1_applier_idempotent [of ex_unmarshal ex_credit_envelope "payload_of ex_credit" ex_db
      "[begin_fails 5, no_faults 6, no_faults 7]"]
  by (simp add: ex_defs ProcessTransactionCreated_def applyInTx_def settle_def Let_def
      select_processed_event_def insert_processed_event_def lock_account_def balances_def
      update_status_processing_def mark_failed_def mark_processed_def update_balance_def
      word_sless_alt)

text \<open>
  With a non-negative balance and a non-negative amount the 64-bit subtraction cannot
  wrap, and the test \<open>newBalance < 0\<close> of the source says that the amount exceeds the
  balance.
\<close>

lemma debit_negative_iff_exceeds:
  fixes bal amt :: int64
  assumes "0 \<le> sint bal" and "0 \<le> sint amt"
  shows "(bal - amt <s 0) = (sint bal < sint amt)"
proof -
  have b: "sint bal < 2 ^ 63" and a: "sint amt < 2 ^ 63"
    using sint_lt [of bal] sint_lt [of amt] by simp_all
  have "sint (bal - amt) = sint bal - sint amt"
    unfolding sint_word_diff using assms a b
    by (intro signed_take_bit_int_eq_self) simp_all
  then show ?thesis
    by (simp add: word_sless_alt)
qed

text \<open>
  Claim C4. A DEBIT envelope that is not yet recorded, whose transaction row exists, whose
  account is found with the payload's currency, and for which the new balance
  \<open>balance - amount\<close> computed by the source is negative: when the statements up to the
  FAILED update run without a database fault, the call returns \<open>shouldRetry = false\<close> with
  the insufficient-balance error, the account rows are left as they were, and the commit
  installs, together, the \<open>processed_events\<close> row and the FAILED status with the
  failure reason \<open>insufficient balance: current=<balance>, debit=<amount>\<close> on every row
  of that transaction id. (The source does not look at the result of this \<open>Commit\<close>:
  when the commit itself fails, the tables stay as they were.)
\<close>

theorem C4_insufficient_balance_marks_failed:
  assumes dec: "unmarshal (ev_Payload envelope) = Inr payload"
    and nofault: "pf_check env = None" "pf_begin env = None" "pf_insert env = None"
      "pf_update_status env = None" "pf_lock env = None" "pf_fail env = None"
    and fresh: "select_processed_event db (ev_EventID envelope) = None"
    and txrow: "\<exists>t \<in> set (transactions db). tx_ID t = pl_TransactionID payload"
    and acct: "lock_account db (pl_AccountID payload) = Some a"
    and cur: "acc_Currency a = pl_Currency payload"
    and debit: "pl_Type payload = TransactionTypeDebit"
    and neg: "acc_BalanceCents a - pl_AmountCents payload <s 0"
  shows "(let reason = ''insufficient balance: current='' @ fmt_d (sint (acc_BalanceCents a))
                @ '', debit='' @ fmt_d (sint (pl_AmountCents payload));
              r = ProcessTransactionCreated unmarshal env envelope db
          in fst r = (False, Some (''insufficient balance: '' @ reason))
           \<and> accounts (snd r) = accounts db
           \<and> (pf_commit env = None \<longrightarrow>
                snd r = db\<lparr>transactions := map (\<lambda>t.
                           if tx_ID t = pl_TransactionID payload
                           then t\<lparr>tx_Status := TransactionStatusFailed,
                                  tx_FailureReason := Some reason,
                                  tx_UpdatedAt := p_now env\<rparr> else t) (transactions db),
                         processed_events := processed_events db @
                           [\<lparr>pe_EventID = ev_EventID envelope,
                             pe_TransactionID = pl_TransactionID payload,
                             pe_ProcessedAt = p_now env\<rparr>]\<rparr>)
           \<and> (pf_commit env \<noteq> None \<longrightarrow> snd r = db))"
  using assms
  apply (simp add: ProcessTransactionCreated_def applyInTx_def insert_processed_event_def
      settle_def Let_def split: option.splits)
  apply (auto simp: mark_failed_def update_status_processing_def)
  done

theorem C4_insufficient_balance_witness:
  "fst (ProcessTransactionCreated ex_unmarshal (no_faults 5) ex_debit_envelope ex_db)
     = (False, Some ''insufficient balance: insufficient balance: current=0, debit=10000'')
   \<and> map tx_Status (transactions (snd (ProcessTransactionCreated ex_unmarshal (no_faults 5)
        ex_debit_envelope ex_db)))
       = [TransactionStatusFailed, TransactionStatusPending, TransactionStatusPending]
   \<and> map tx_FailureReason (transactions (snd (ProcessTransactionCreated ex_unmarshal
        (no_faults 5) ex_debit_envelope ex_db)))
       = [Some ''insufficient balance: current=0, debit=10000'', None, None]
   \<and> map acc_BalanceCents (accounts (snd (ProcessTransactionCreated ex_unmarshal (no_faults 5)
        ex_debit_envelope ex_db))) = [0]"
  using C4_insufficient_balance_marks_failed
    [of ex_unmarshal ex_debit_envelope "payload_of ex_debit" "no_faults 5" ex_db ex_account]
  by (simp add: ex_defs select_processed_event_def lock_account_def Let_def
        fmt_d_def digits10.simps digit_def word_sless_alt)

lemmas applier_defs = ProcessTransactionCreated_def applyInTx_def settle_def Let_def
  select_processed_event_def insert_processed_event_def lock_account_def
  update_status_processing_def mark_failed_def mark_processed_def update_balance_def
  word_sless_alt

text \<open>
  When the account is not found or its currency differs from the payload's, the source
  returns before any commit, so the deferred rollback also undoes the
  \<open>processed_events\<close> row and the move to PROCESSING: the tables are as before.
\<close>

lemma terminal_failure_rolls_back:
  assumes "unmarshal (ev_Payload envelope) = Inr payload"
    and "lock_account db (pl_AccountID payload) = None
         \<or> (\<exists>a. lock_account db (pl_AccountID payload) = Some a
                \<and> acc_Currency a \<noteq> pl_Currency payload)"
  shows "snd (ProcessTransactionCreated unmarshal env envelope db) = db"
  using assms
  by (auto simp: ProcessTransactionCreated_def applyInTx_def insert_processed_event_def Let_def
      split: option.splits)

text \<open>
  Claim C3, on scenario S5. The envelope of the EUR credit against the USD account is
  processed without any database fault. The call returns \<open>shouldRetry = false\<close> with the
  currency-mismatch error and the tables are exactly as before: the transaction is
  still PENDING and has no failure reason, and the envelope id is not recorded. The
  consumer then commits the offset of the message and writes nothing to the DLQ, so the
  event is not seen again.
\<close>

theorem C3_currency_mismatch_not_marked_failed:
  "ProcessTransactionCreated ex_unmarshal (no_faults 5) ex_eur_envelope ex_db
     = ((False, Some ''currency mismatch: account=USD, transaction=EUR''), ex_db)
   \<and> map tx_Status (transactions ex_db)
       = [TransactionStatusPending, TransactionStatusPending, TransactionStatusPending]
   \<and> map tx_FailureReason (transactions ex_db) = [None, None, None]
   \<and> processMessage ex_unmarshalEnvelope ex_unmarshal 5
        \<lparr>cn_fetch = None, cn_attempts = (\<lambda>i. no_faults (5 + i)), cn_dlq_write = None,
         cn_commit = None\<rparr>
        (ex_db, ex_broker\<lparr>pending := [ex_message\<lparr>msg_Value := ''envelope-credit-eur''\<rparr>]\<rparr>)
       = (None, ex_db, \<lparr>pending = [], committed = [(3, 43)], dlq_topic = []\<rparr>)"
  by (simp add: ex_defs applier_defs processMessage_def retryLoop.simps FetchMessage_def
        CommitMessages_def ex_unmarshalEnvelope_def ex_message_def ex_broker_def)

text \<open>
  Claim C8, on a run of three envelopes. The DEBIT of 10000 meets balance 0 and its
  transaction becomes FAILED; the CREDIT of 10000 is applied; then the outbox row of the
  DEBIT is published a second time, under a new event id, and the applier handles it as
  a new event: the FAILED transaction becomes PROCESSED and the balance is debited. Both
  envelopes of the DEBIT are what the relay builds from the one outbox row.
\<close>

theorem C8_failed_transaction_becomes_processed:
  "(let db1 = snd (ProcessTransactionCreated ex_unmarshal (no_faults 5) ex_debit_envelope ex_db);
        db2 = snd (ProcessTransactionCreated ex_unmarshal (no_faults 6) ex_credit_envelope db1);
        db3 = snd (ProcessTransactionCreated ex_unmarshal (no_faults 7) ex_republished db2)
    in map tx_Status (transactions db1)
         = [TransactionStatusFailed, TransactionStatusPending, TransactionStatusPending]
     \<and> map tx_Status (transactions db2)
         = [TransactionStatusFailed, TransactionStatusProcessed, TransactionStatusPending]
     \<and> balances db2 = [(1, 10000)]
     \<and> map tx_Status (transactions db3)
         = [TransactionStatusProcessed, TransactionStatusProcessed, TransactionStatusPending]
     \<and> balances db3 = [(1, 0)]
     \<and> map pe_EventID (processed_events db3) = [100, 101, 103]
     \<and> buildEnvelope ex_unmarshal 100 ex_outbox_debit = ex_debit_envelope
     \<and> buildEnvelope ex_unmarshal 103 ex_outbox_debit = ex_republished)"
  by (simp add: ex_defs ex_republished_def applier_defs balances_def buildEnvelope_def
        ex_outbox_debit_def)

section \<open>Verification: the consumer loop\<close>

text \<open>
  A retryable result always carries an error and leaves the tables rolled back. So a
  loop that was entered and ends with \<open>shouldRetry = true\<close> has made every attempt, has
  an error to report, and hands back the tables as they were before the message.
\<close>

lemma settle_retry:
  assumes "fst (fst (settle env p bal db tx))"
  shows "snd (fst (settle env p bal db tx)) \<noteq> None \<and> snd (settle env p bal db tx) = db"
  using assms by (auto simp: settle_def Let_def split: option.splits if_splits)

lemma applyInTx_retry:
  assumes "fst (fst (applyInTx env e p db))"
  shows "snd (fst (applyInTx env e p db)) \<noteq> None \<and> snd (applyInTx env e p db) = db"
proof -
  have "applyInTx env e p db = settle env p bal db tx \<Longrightarrow> ?thesis" for bal tx
    using assms settle_retry [of env p bal db tx] by simp
  then show ?thesis
    using assms
    by (auto simp: applyInTx_def Let_def split: option.splits sum.splits if_splits prod.splits)
qed

lemma ProcessTransactionCreated_retry:
  assumes "fst (fst (ProcessTransactionCreated un env e db))"
  shows "snd (fst (ProcessTransactionCreated un env e db)) \<noteq> None
       \<and> snd (ProcessTransactionCreated un env e db) = db"
  using assms applyInTx_retry [of env e _ db]
  by (auto simp: ProcessTransactionCreated_def split: option.splits sum.splits if_splits)

lemma retryLoop_exhausted:
  assumes "retryLoop un m envs e a s l db = ((True, l'), db')" and "s" and "a < m"
  shows "l' \<noteq> None \<and> db' = db"
  using assms
proof (induction un m envs e a s l db rule: retryLoop.induct)
  case (1 un m envs e a s l db)
  obtain s1 l1 db1 where step: "ProcessTransactionCreated un (envs (nat a)) e db = ((s1, l1), db1)"
    by (cases "ProcessTransactionCreated un (envs (nat a)) e db") auto
  from "1.prems" step have s1: "s1"
    by (auto simp: retryLoop.simps [of un m envs e a] split: if_splits)
  from ProcessTransactionCreated_retry [of un "envs (nat a)" e db] step s1
  have l1: "l1 \<noteq> None" and db1: "db1 = db" by simp_all
  from "1.prems" step s1
  have rec: "retryLoop un m envs e (a + 1) s1 l1 db1 = ((True, l'), db')"
    by (simp add: retryLoop.simps [of un m envs e a])
  show ?case
  proof (cases "a + 1 < m")
    case True
    have "l' \<noteq> None \<and> db' = db1"
      using "1.IH" [of "(s1, l1)" db1 s1 l1] "1.prems" step s1 rec True by simp
    with db1 show ?thesis by simp
  next
    case False
    with rec l1 db1 show ?thesis
      by (simp add: retryLoop.simps [of un m envs e "a + 1"])
  qed
qed

text \<open>
  What one \<open>processMessage\<close> does with a message that was fetched and decoded and whose
  retry loop ended with \<open>shouldRetry = true\<close> and a last error \<open>e\<close>. If the DLQ write
  fails, its error is returned, nothing is on the DLQ topic and no position is
  committed. If it succeeds, the DLQ topic has one more message with the key, the value
  and the headers of the original followed by the headers \<open>dlq_reason\<close>,
  \<open>original_partition\<close> and \<open>original_offset\<close>; the position after the original message
  is committed after that, unless the commit itself fails. In each case the reader has
  moved past the message.
\<close>

lemma processMessage_exhausted:
  assumes fetch: "cn_fetch env = None" "pending br = msg # rest"
    and dec: "unmarshalEnvelope (msg_Value msg) = Inr envelope"
    and exhausted: "retryLoop unmarshal maxRetries (cn_attempts env) envelope 0 True None db
                      = ((True, Some e), db')"
  shows "processMessage unmarshalEnvelope unmarshal maxRetries env (db, br) =
     (let dlq = \<lparr>msg_Partition = 0, msg_Offset = 0,
                  msg_Key = msg_Key msg, msg_Value = msg_Value msg,
                  msg_Headers = msg_Headers msg @
                    [(''dlq_reason'', e),
                     (''original_partition'', fmt_d (msg_Partition msg)),
                     (''original_offset'', fmt_d (sint (msg_Offset msg)))]\<rparr>
      in case cn_dlq_write env of
           Some m \<Rightarrow> (Some (''failed to write to DLQ: '' @ m), db', br\<lparr>pending := rest\<rparr>)
         | None \<Rightarrow>
             (case cn_commit env of
                Some m \<Rightarrow> (Some (''failed to commit message: '' @ m), db',
                           br\<lparr>pending := rest, dlq_topic := dlq_topic br @ [dlq]\<rparr>)
              | None \<Rightarrow> (None, db',
                           br\<lparr>pending := rest, dlq_topic := dlq_topic br @ [dlq],
                              committed := (msg_Partition msg, msg_Offset msg + 1)
                                # filter (\<lambda>e. fst e \<noteq> msg_Partition msg) (committed br)\<rparr>)))"
  using assms
  by (simp add: processMessage_def FetchMessage_def sendToDLQ_def CommitMessages_def
        dlqMessage_def Let_def split: option.splits)

lemma ex_attempt:
  "ProcessTransactionCreated ex_unmarshal (begin_fails n) ex_credit_envelope ex_db
     = ((True, Some ''failed to begin transaction: connection refused''), ex_db)"
  by (simp add: ex_defs ProcessTransactionCreated_def applyInTx_def select_processed_event_def)

lemma ex_exhausted:
  "retryLoop ex_unmarshal 5 (\<lambda>i. begin_fails (5 + i)) ex_credit_envelope 0 True None ex_db
     = ((True, Some ''failed to begin transaction: connection refused''), ex_db)"
  by (simp add: retryLoop.simps ex_attempt)

lemma ex_dlq_written:
  "processMessage ex_unmarshalEnvelope ex_unmarshal 5 ex_cons_env
      (ex_db, ex_broker\<lparr>pending := [ex_message]\<rparr>) =
     (None, ex_db,
      \<lparr>pending = [], committed = [(3, 43)],
       dlq_topic = [\<lparr>msg_Partition = 0, msg_Offset = 0, msg_Key = ''tx-11'',
          msg_Value = ''envelope-credit-10000'',
          msg_Headers = [(''event_type'', ''transaction.created''), (''aggregate_id'', ''tx-11''),
            (''dlq_reason'', ''failed to begin transaction: connection refused''),
            (''original_partition'', ''3''), (''original_offset'', ''42'')]\<rparr>]\<rparr>)"
  using processMessage_exhausted [of ex_cons_env "ex_broker\<lparr>pending := [ex_message]\<rparr>"
      ex_message "[]" ex_unmarshalEnvelope ex_credit_envelope
      ex_unmarshal 5 ex_db "''failed to begin transaction: connection refused''" ex_db]
    ex_exhausted
  by (simp add: ex_cons_env_def ex_message_def ex_unmarshalEnvelope_def ex_broker_def
        fmt_d_def digits10.simps digit_def Let_def)

lemma ex_dlq_failed:
  "processMessage ex_unmarshalEnvelope ex_unmarshal 5
      (ex_cons_env\<lparr>cn_dlq_write := Some ''broker unavailable''\<rparr>)
      (ex_db, ex_broker\<lparr>pending := [ex_message, ex_message_next]\<rparr>) =
     (Some ''failed to write to DLQ: broker unavailable'', ex_db,
      ex_broker\<lparr>pending := [ex_message_next]\<rparr>)"
  using processMessage_exhausted [of "ex_cons_env\<lparr>cn_dlq_write := Some ''broker unavailable''\<rparr>"
      "ex_broker\<lparr>pending := [ex_message, ex_message_next]\<rparr>"
      ex_message "[ex_message_next]" ex_unmarshalEnvelope ex_credit_envelope
      ex_unmarshal 5 ex_db "''failed to begin transaction: connection refused''" ex_db]
    ex_exhausted
  by (simp add: ex_cons_env_def ex_message_def ex_unmarshalEnvelope_def ex_broker_def Let_def)

lemma ex_next_message:
  "processMessage ex_unmarshalEnvelope ex_unmarshal 5
      \<lparr>cn_fetch = None, cn_attempts = (\<lambda>i. no_faults (20 + i)), cn_dlq_write = None,
       cn_commit = None\<rparr>
      (ex_db, ex_broker\<lparr>pending := [ex_message_next]\<rparr>) =
     (None,
      snd (ProcessTransactionCreated ex_unmarshal (no_faults 20) ex_debit_envelope ex_db),
      \<lparr>pending = [], committed = [(3, 44)], dlq_topic = []\<rparr>)"
  by (simp add: ex_defs applier_defs processMessage_def retryLoop.simps FetchMessage_def
        CommitMessages_def ex_unmarshalEnvelope_def ex_message_next_def ex_broker_def)

text \<open>
  Claim C7, on a log of two messages. The CREDIT at offset 42 exhausts its five attempts
  and its DLQ write fails: \<open>processMessage\<close> returns the error without committing, as the
  claim says. But the message is not delivered again: the reader has moved on, the loop
  fetches the DEBIT at offset 43, handles it and commits position 44 of the partition,
  which covers offset 42. At the end the DLQ topic is empty, nothing is left to fetch,
  the CREDIT is covered by the committed position and its transaction is still PENDING.
\<close>

theorem C7_dlq_failure_loses_message:
  "fst ex_consumer_run = [Some ''failed to write to DLQ: broker unavailable'', None]
   \<and> dlq_topic (snd (snd ex_consumer_run)) = []
   \<and> pending (snd (snd ex_consumer_run)) = []
   \<and> committed (snd (snd ex_consumer_run)) = [(3, 44)]
   \<and> covered (snd (snd ex_consumer_run)) ex_message
   \<and> map tx_Status (transactions (fst (snd ex_consumer_run)))
       = [TransactionStatusFailed, TransactionStatusPending, TransactionStatusPending]"
proof -
  have run: "ex_consumer_run =
      ([Some ''failed to write to DLQ: broker unavailable'', None],
       snd (ProcessTransactionCreated ex_unmarshal (no_faults 20) ex_debit_envelope ex_db),
       \<lparr>pending = [], committed = [(3, 44)], dlq_topic = []\<rparr>)"
    by (simp add: ex_consumer_run_def ex_dlq_failed ex_next_message)
  show ?thesis
    unfolding run
    by (simp add: covered_def ex_message_def word_sless_alt ex_defs applier_defs)
qed

section \<open>Verification: the relay\<close>

text \<open>
  Claim C5 as stated fails: the event id of the envelope built for an outbox row is
  not the id of the row, and two publishes of one row carry different event ids
  whenever the generator returns different values.
\<close>

theorem C5_event_id_not_row_id_counterexample:
  "ev_EventID (buildEnvelope ex_unmarshal 100 ex_outbox_debit) \<noteq> oe_ID ex_outbox_debit
   \<and> ev_EventID (buildEnvelope ex_unmarshal 100 ex_outbox_debit)
       \<noteq> ev_EventID (buildEnvelope ex_unmarshal 103 ex_outbox_debit)"
  by (simp add: buildEnvelope_def ex_outbox_debit_def ex_defs)

text \<open>
  Claim C5, amended. The event id of an envelope is the value drawn from \<open>uuid.New()\<close>
  for this publish, whatever the outbox row; two publishes of one row give envelopes
  that differ in the event id only, and event type, occurrence time, aggregate id and
  payload are those of the row.
\<close>

theorem C5_event_id_is_generated:
  "ev_EventID (buildEnvelope unmarshal newUUID event) = newUUID
   \<and> buildEnvelope unmarshal newUUID' event
       = (buildEnvelope unmarshal newUUID event)\<lparr>ev_EventID := newUUID'\<rparr>
   \<and> ev_EventType (buildEnvelope unmarshal newUUID event) = oe_EventType event
   \<and> ev_OccurredAt (buildEnvelope unmarshal newUUID event) = oe_CreatedAt event
   \<and> ev_AggregateID (buildEnvelope unmarshal newUUID event) = oe_AggregateID event
   \<and> ev_Payload (buildEnvelope unmarshal newUUID event) = oe_Payload event"
  by (simp add: buildEnvelope_def Let_def split: sum.splits)

section \<open>Verification: the HTTP layer\<close>

text \<open>
  Claim C9 as stated fails: with \<open>API_KEY\<close> unset the configured key is empty, and a
  \<open>/v1\<close> request that carries no key at all, or a key that differs from the configured
  one, reaches the handler.
\<close>

theorem C9_no_key_configured_counterexample:
  "v1_route (LoadConfig (\<lambda>k. [])) ex_handler ex_request (ex_response, 0)
     = (ex_response\<lparr>resp_Status := 200\<rparr>, 1)
   \<and> v1_route (LoadConfig (\<lambda>k. [])) ex_handler
       (ex_request\<lparr>r_Header := (\<lambda>k. if k = ''X-Api-Key'' then [''wrong''] else [])\<rparr>)
       (ex_response, 0)
     = (ex_response\<lparr>resp_Status := 200\<rparr>, 1)"
  by (simp add: v1_route_def LoadConfig_def getEnv_def APIKeyAuth_def ex_handler_def)

lemma HasPrefix_split: "HasPrefix a pre \<Longrightarrow> pre @ drop (length pre) a = a"
  unfolding HasPrefix_def by (metis append_take_drop_id)

lemma trimmed_bearer:
  assumes "(if HasPrefix a ''Bearer '' then TrimPrefix a ''Bearer '' else a) = k"
  shows "a = k \<or> a = ''Bearer '' @ k"
proof (cases "HasPrefix a ''Bearer ''")
  case True
  with assms have "drop (length ''Bearer '') a = k"
    by (simp add: TrimPrefix_def)
  with HasPrefix_split [OF True] show ?thesis by auto
next
  case False
  with assms show ?thesis by simp
qed

text \<open>
  Claim C9, amended. With a non-empty configured key, a request whose \<open>X-API-Key\<close>
  header is present and differs from the key, or whose \<open>X-API-Key\<close> header is absent
  while its \<open>Authorization\<close> header is neither the key nor \<open>Bearer\<close>, a space and the
  key, is answered with status 401, content type \<open>application/json\<close> and the body
  \<open>{"error": "Unauthorized"}\<close>, and the result does not depend on the handler: it is
  not invoked and the state behind it is unchanged. With an empty configured key the
  middleware hands every request to the handler.
\<close>

theorem C9_api_key_enforced_when_configured:
  "(expectedKey \<noteq> []
      \<and> (let x = Values_Get (r_Header r) ''X-Api-Key'';
              a = Values_Get (r_Header r) ''Authorization''
          in (x \<noteq> [] \<and> x \<noteq> expectedKey)
           \<or> (x = [] \<and> a \<noteq> expectedKey \<and> a \<noteq> ''Bearer '' @ expectedKey))
    \<longrightarrow> APIKeyAuth expectedKey next r (w, st)
          = (w\<lparr>resp_Header := Header_Set ''Content-Type'' ''application/json'' (resp_Header w),
               resp_Status := 401,
               resp_Body := resp_Body w @ [Raw ''{\"error\": \"Unauthorized\"}'']\<rparr>, st))
   \<and> (expectedKey = [] \<longrightarrow> APIKeyAuth expectedKey next r (w, st) = next r (w, st))"
  using trimmed_bearer [of "Values_Get (r_Header r) ''Authorization''" expectedKey]
  by (auto simp: APIKeyAuth_def Let_def)

theorem C9_api_key_enforced_witness:
  "APIKeyAuth ''demo-api-key-12345'' ex_handler
      (ex_request\<lparr>r_Header := (\<lambda>k. if k = ''X-Api-Key'' then [''wrong''] else [])\<rparr>)
      (ex_response, 0)
     = (\<lparr>resp_Header = [(''Content-Type'', ''application/json'')], resp_Status = 401,
         resp_Body = [Raw ''{\"error\": \"Unauthorized\"}'']\<rparr>, 0)
   \<and> APIKeyAuth ''demo-api-key-12345'' ex_handler
      (ex_request\<lparr>r_Header := (\<lambda>k. if k = ''Authorization'' then [''Bearer nope''] else [])\<rparr>)
      (ex_response, 0)
     = (\<lparr>resp_Header = [(''Content-Type'', ''application/json'')], resp_Status = 401,
         resp_Body = [Raw ''{\"error\": \"Unauthorized\"}'']\<rparr>, 0)
   \<and> APIKeyAuth [] ex_handler ex_request (ex_response, 0) = ex_handler ex_request (ex_response, 0)"
  using C9_api_key_enforced_when_configured [of "''demo-api-key-12345''"
      "ex_request\<lparr>r_Header := (\<lambda>k. if k = ''X-Api-Key'' then [''wrong''] else [])\<rparr>"
      ex_handler ex_response 0]
    C9_api_key_enforced_when_configured [of "''demo-api-key-12345''"
      "ex_request\<lparr>r_Header := (\<lambda>k. if k = ''Authorization'' then [''Bearer nope''] else [])\<rparr>"
      ex_handler ex_response 0]
    C9_api_key_enforced_when_configured [of "[]" ex_request ex_handler ex_response 0]
  by (simp add: Values_Get_def ex_request_def ex_response_def Header_Set_def Let_def)

text \<open>
  Claim C10. Whatever the query parameters, the handler never answers 400. The limit
  passed on is 50 when the parameter is absent, is not an integer, or is outside 1..100,
  and the parsed value otherwise; the offset is 0 when the parameter is absent, is not
  an integer or is negative, and the parsed value otherwise; an \<open>account_id\<close> that does
  not parse gives no filter. When the query runs, the answer is 200 with the page of rows
  for that filter, limit and offset, and the limit and offset applied are echoed; when
  the query or the scan fails, the answer is 500.
\<close>

theorem C10_list_parameters_never_rejected:
  "(let limitStr = Values_Get (r_Query r) ''limit'';
        offsetStr = Values_Get (r_Query r) ''offset'';
        accountIDStr = Values_Get (r_Query r) ''account_id'';
        resp = handler_ListTransactions uuidParse fquery fscan db w r
    in resp_Status resp \<noteq> 400
     \<and> (limitStr = [] \<or> Atoi limitStr = None
          \<or> (\<exists>l. Atoi limitStr = Some l \<and> (l \<le> 0 \<or> l > 100)) \<longrightarrow> parseLimit limitStr = 50)
     \<and> (\<forall>l. Atoi limitStr = Some l \<and> 0 < l \<and> l \<le> 100 \<longrightarrow> parseLimit limitStr = l)
     \<and> (offsetStr = [] \<or> Atoi offsetStr = None
          \<or> (\<exists>n. Atoi offsetStr = Some n \<and> n < 0) \<longrightarrow> parseOffset offsetStr = 0)
     \<and> (\<forall>n. Atoi offsetStr = Some n \<and> 0 \<le> n \<longrightarrow> parseOffset offsetStr = n)
     \<and> (accountIDStr = [] \<or> uuidParse accountIDStr = None
          \<longrightarrow> parseAccountID uuidParse accountIDStr = None)
     \<and> (fquery = None \<and> fscan = None \<longrightarrow>
          resp_Status resp = 200
          \<and> resp_Body resp = resp_Body w @
              [TransactionsJSON
                 (take (nat (parseLimit limitStr)) (drop (nat (parseOffset offsetStr))
                    (rev (sort_key tx_CreatedAt
                       (filter (\<lambda>t. case parseAccountID uuidParse accountIDStr of
                                        None \<Rightarrow> True | Some a \<Rightarrow> tx_AccountID t = a)
                          (transactions db))))))
                 (parseLimit limitStr) (parseOffset offsetStr)])
     \<and> (fquery \<noteq> None \<or> fscan \<noteq> None \<longrightarrow> resp_Status resp = 500))"
proof -
  let ?limitStr = "Values_Get (r_Query r) ''limit''"
  let ?offsetStr = "Values_Get (r_Query r) ''offset''"
  let ?accountIDStr = "Values_Get (r_Query r) ''account_id''"
  let ?resp = "handler_ListTransactions uuidParse fquery fscan db w r"
  have lim: "0 \<le> parseLimit s" for s
    by (simp add: parseLimit_def split: option.splits)
  have off: "0 \<le> parseOffset s" for s
    by (simp add: parseOffset_def split: option.splits)
  have svc: "service_ListTransactions fq fs db a (parseLimit s) (parseOffset s') =
      (case fq of
         Some m \<Rightarrow> Inl (''failed to query transactions: '' @ m)
       | None \<Rightarrow>
          (case fs of
             Some m \<Rightarrow> Inl (''failed to scan transaction: '' @ m)
           | None \<Rightarrow> Inr (take (nat (parseLimit s)) (drop (nat (parseOffset s'))
                      (rev (sort_key tx_CreatedAt
                         (filter (\<lambda>t. case a of None \<Rightarrow> True | Some a \<Rightarrow> tx_AccountID t = a)
                            (transactions db))))))))" for a s s' fq fs
    using lim [of s] off [of s']
    by (simp add: service_ListTransactions_def not_less split: option.splits)
  have c1: "resp_Status ?resp \<noteq> 400"
    by (simp add: handler_ListTransactions_def Let_def svc respondJSON_def respondError_def
          split: option.splits)
  have c2: "?limitStr = [] \<or> Atoi ?limitStr = None
          \<or> (\<exists>l. Atoi ?limitStr = Some l \<and> (l \<le> 0 \<or> l > 100)) \<longrightarrow> parseLimit ?limitStr = 50"
    by (auto simp: parseLimit_def)
  have c3: "\<forall>l. Atoi ?limitStr = Some l \<and> 0 < l \<and> l \<le> 100 \<longrightarrow> parseLimit ?limitStr = l"
    by (auto simp: parseLimit_def Atoi_def)
  have c4: "?offsetStr = [] \<or> Atoi ?offsetStr = None
          \<or> (\<exists>n. Atoi ?offsetStr = Some n \<and> n < 0) \<longrightarrow> parseOffset ?offsetStr = 0"
    by (auto simp: parseOffset_def)
  have c5: "\<forall>n. Atoi ?offsetStr = Some n \<and> 0 \<le> n \<longrightarrow> parseOffset ?offsetStr = n"
    by (auto simp: parseOffset_def Atoi_def)
  have c6: "?accountIDStr = [] \<or> uuidParse ?accountIDStr = None
          \<longrightarrow> parseAccountID uuidParse ?accountIDStr = None"
    by (auto simp: parseAccountID_def)
  have c7: "fquery = None \<and> fscan = None \<longrightarrow>
          resp_Status ?resp = 200
          \<and> resp_Body ?resp = resp_Body w @
              [TransactionsJSON
                 (take (nat (parseLimit ?limitStr)) (drop (nat (parseOffset ?offsetStr))
                    (rev (sort_key tx_CreatedAt
                       (filter (\<lambda>t. case parseAccountID uuidParse ?accountIDStr of
                                        None \<Rightarrow> True | Some a \<Rightarrow> tx_AccountID t = a)
                          (transactions db))))))
                 (parseLimit ?limitStr) (parseOffset ?offsetStr)]"
    by (simp add: handler_ListTransactions_def Let_def svc respondJSON_def)
  have c8: "fquery \<noteq> None \<or> fscan \<noteq> None \<longrightarrow> resp_Status ?resp = 500"
    by (auto simp: handler_ListTransactions_def Let_def svc respondJSON_def respondError_def
          split: option.splits)
  show ?thesis
    unfolding Let_def using c1 c2 c3 c4 c5 c6 c7 c8 by blast
qed

theorem C10_list_parameters_witness:
  "handler_ListTransactions ex_uuidParse None None ex_db ex_response ex_list_request
     = \<lparr>resp_Header = [(''Content-Type'', ''application/json'')], resp_Status = 200,
        resp_Body = [TransactionsJSON [ex_eur, ex_credit, ex_debit] 50 0]\<rparr>
   \<and> parseLimit ''101'' = 50 \<and> parseLimit ''0'' = 50 \<and> parseLimit ''100'' = 100
   \<and> parseOffset ''7'' = 7"
  using C10_list_parameters_never_rejected [of ex_list_request ex_uuidParse None None ex_db ex_response]
  by (simp add: handler_ListTransactions_def service_ListTransactions_def respondJSON_def
        Header_Set_def parseLimit_def parseOffset_def parseAccountID_def Atoi_def digit_val_def
        Values_Get_def ex_list_request_def ex_uuidParse_def ex_response_def Let_def
        ex_db_def ex_debit_def ex_credit_def ex_eur_def)

section \<open>Verification: the ingress\<close>

lemma select_transaction_by_key_Some:
  assumes "select_transaction_by_key db a k = Some t"
  shows "t \<in> set (transactions db)" and "tx_AccountID t = a" and "tx_IdempotencyKey t = k"
  using assms by (auto simp: select_transaction_by_key_def find_Some_iff)

lemma select_transaction_by_key_None:
  "select_transaction_by_key db a k = None \<longleftrightarrow>
     (\<forall>t \<in> set (transactions db). \<not> (tx_AccountID t = a \<and> tx_IdempotencyKey t = k))"
  by (auto simp: select_transaction_by_key_def find_None_iff)

lemma insert_transaction_Inr:
  assumes "insert_transaction f row db = Inr db'"
  shows "db' = db\<lparr>transactions := transactions db @ [row]\<rparr>"
    and "\<forall>t \<in> set (transactions db). tx_ID t \<noteq> tx_ID row"
    and "\<forall>t \<in> set (transactions db).
           \<not> (tx_AccountID t = tx_AccountID row \<and> tx_IdempotencyKey t = tx_IdempotencyKey row)"
  using assms by (auto simp: insert_transaction_def split: option.splits if_splits)

lemma insert_outbox_Inr:
  assumes "insert_outbox f row db = Inr db'"
  shows "db' = db\<lparr>outbox_events := outbox_events db @ [row]\<rparr>"
  using assms by (auto simp: insert_outbox_def split: option.splits if_splits)

text \<open>The two ways in which the second half of a call ends.\<close>

lemma insertWithOutbox_cases:
  obtains (error) e where "insertWithOutbox marshal env req db = (Inl e, db)"
  | (created) t payloadBytes where
      "insertWithOutbox marshal env req db =
         (Inr t, db\<lparr>transactions := transactions db @ [t],
                   outbox_events := outbox_events db @
                     [\<lparr>ob_ID = c_outboxID env, ob_AggregateType = ''transaction'',
                       ob_AggregateID = tx_ID t, ob_EventType = ''transaction.created'',
                       ob_Payload = payloadBytes, ob_Status = ''PENDING'',
                       ob_CreatedAt = c_now env, ob_PublishedAt = None,
                       ob_PublishAttempts = 0, ob_LastError = None\<rparr>]\<rparr>)"
      "tx_AccountID t = req_AccountID req" "tx_IdempotencyKey t = req_IdempotencyKey req"
      "tx_Status t = TransactionStatusPending" "tx_ID t = c_txID env"
      "\<forall>u \<in> set (transactions db). tx_ID u \<noteq> tx_ID t"
      "\<forall>u \<in> set (transactions db).
         \<not> (tx_AccountID u = tx_AccountID t \<and> tx_IdempotencyKey u = tx_IdempotencyKey t)"
      "marshal (payload_of t) = Inr payloadBytes"
proof -
  let ?t = "\<lparr>tx_ID = c_txID env, tx_AccountID = req_AccountID req,
             tx_AmountCents = req_AmountCents req, tx_Currency = req_Currency req,
             tx_Type = req_Type req, tx_Status = TransactionStatusPending,
             tx_IdempotencyKey = req_IdempotencyKey req, tx_FailureReason = None,
             tx_Metadata = req_Metadata req,
             tx_CreatedAt = c_now env, tx_UpdatedAt = c_now env\<rparr>"
  show thesis
  proof (cases "insert_transaction (cf_insert env) ?t db")
    case (Inl m)
    then have "\<exists>e. insertWithOutbox marshal env req db = (Inl e, db)"
      by (simp add: insertWithOutbox_def reread_after_failed_insert_def split: option.splits)
    then show ?thesis
      using error by blast
  next
    case (Inr tx1)
    note ins = insert_transaction_Inr [OF Inr]
    show ?thesis
    proof (cases "marshal (payload_of ?t)")
      case (Inl m)
      with Inr show ?thesis using error by (simp add: insertWithOutbox_def)
    next
      case mp: (Inr payloadBytes)
      let ?o = "\<lparr>ob_ID = c_outboxID env, ob_AggregateType = ''transaction'',
                 ob_AggregateID = c_txID env, ob_EventType = ''transaction.created'',
                 ob_Payload = payloadBytes, ob_Status = ''PENDING'',
                 ob_CreatedAt = c_now env, ob_PublishedAt = None,
                 ob_PublishAttempts = 0, ob_LastError = None\<rparr>"
      show ?thesis
      proof (cases "insert_outbox (cf_outbox env) ?o tx1")
        case (Inl m)
        with Inr mp show ?thesis using error by (simp add: insertWithOutbox_def)
      next
        case io: (Inr tx2)
        show ?thesis
        proof (cases "cf_commit env")
          case (Some m)
          with Inr mp io show ?thesis using error by (simp add: insertWithOutbox_def)
        next
          case None
          have "insertWithOutbox marshal env req db = (Inr ?t, tx2)"
            using Inr mp io None by (simp add: insertWithOutbox_def)
          moreover have "tx2 = db\<lparr>transactions := transactions db @ [?t],
                   outbox_events := outbox_events db @ [?o]\<rparr>"
            using insert_outbox_Inr [OF io] ins(1) by simp
          ultimately show ?thesis
            using created [of ?t payloadBytes] ins(2,3) mp by simp
        qed
      qed
    qed
  qed
qed

lemma CreateTransaction_between_cases:
  obtains (error) e where "CreateTransaction_between marshal env others req db = (Inl e, db)"
  | (replay) t where "CreateTransaction_between marshal env others req db = (Inr t, db)"
      "select_transaction_by_key db (req_AccountID req) (req_IdempotencyKey req) = Some t"
  | (late) "select_transaction_by_key db (req_AccountID req) (req_IdempotencyKey req) = None"
      "CreateTransaction_between marshal env others req db
         = insertWithOutbox marshal env req (others db)"
proof -
  have "(\<exists>e. CreateTransaction_between marshal env others req db = (Inl e, db))
      \<or> (\<exists>t. CreateTransaction_between marshal env others req db = (Inr t, db)
            \<and> select_transaction_by_key db (req_AccountID req) (req_IdempotencyKey req) = Some t)
      \<or> (select_transaction_by_key db (req_AccountID req) (req_IdempotencyKey req) = None
          \<and> CreateTransaction_between marshal env others req db
               = insertWithOutbox marshal env req (others db))"
    by (simp add: CreateTransaction_between_def split: option.splits)
  then show thesis
    using error replay late by blast
qed

lemma replay_returns_existing:
  assumes "select_transaction_by_key db (req_AccountID req) (req_IdempotencyKey req) = Some t0"
    and "cf_begin env = None" and "cf_check env = None"
  shows "CreateTransaction_between marshal env others req db = (Inr t0, db)"
  using assms by (simp add: CreateTransaction_between_def)

lemma find_append_Some:
  "find P xs = Some x \<Longrightarrow> find P (xs @ ys) = Some x"
  by (induction xs) (auto split: if_splits)

lemma select_transaction_by_key_extends:
  assumes "select_transaction_by_key db a k = Some t0"
    and "transactions db' = transactions db @ new"
  shows "select_transaction_by_key db' a k = Some t0"
  using assms by (simp add: select_transaction_by_key_def find_append_Some)

lemma unique_keys_append:
  assumes "unique_keys db"
    and "\<forall>u \<in> set (transactions db).
           \<not> (tx_AccountID u = tx_AccountID t \<and> tx_IdempotencyKey u = tx_IdempotencyKey t)"
    and "transactions db' = transactions db @ [t]"
  shows "unique_keys db'"
  using assms by (auto simp: unique_keys_def)

lemma unique_keys_same_row:
  assumes "unique_keys db" and "t \<in> set (transactions db)" and "t' \<in> set (transactions db)"
    and "tx_AccountID t = tx_AccountID t'" and "tx_IdempotencyKey t = tx_IdempotencyKey t'"
  shows "t = t'"
proof -
  have "inj_on (\<lambda>t. (tx_AccountID t, tx_IdempotencyKey t)) (set (transactions db))"
    using assms(1) by (simp add: unique_keys_def distinct_map)
  with assms(2-5) show ?thesis
    by (auto dest: inj_onD)
qed

lemma distinct_map_filter_le_one:
  "distinct (map f xs) \<Longrightarrow> length (filter (\<lambda>x. f x = v) xs) \<le> 1"
proof (induction xs)
  case Nil
  then show ?case by simp
next
  case (Cons x xs)
  show ?case
  proof (cases "f x = v")
    case True
    from Cons.prems have "f x \<notin> f ` set xs" by simp
    with True have "\<forall>y \<in> set xs. f y \<noteq> v" by (metis image_eqI)
    then have "filter (\<lambda>x. f x = v) xs = []" by (simp add: filter_empty_conv)
    with True show ?thesis by simp
  next
    case False
    with Cons show ?thesis by simp
  qed
qed

lemma unique_keys_at_most_one:
  assumes "unique_keys db"
  shows "length (filter (\<lambda>t. tx_AccountID t = a \<and> tx_IdempotencyKey t = k) (transactions db)) \<le> 1"
proof -
  have "length (filter (\<lambda>t. (tx_AccountID t, tx_IdempotencyKey t) = (a, k)) (transactions db)) \<le> 1"
    using assms unfolding unique_keys_def by (rule distinct_map_filter_le_one)
  then show ?thesis by simp
qed

text \<open>One call, whatever other sessions do in between, as long as they keep the key unique
  and only add rows.\<close>

lemma CreateTransaction_between_step:
  fixes marshal env others req db
  assumes uk: "unique_keys db"
    and ouk: "unique_keys (others db)"
    and oext: "\<exists>new. transactions (others db) = transactions db @ new"
  defines "res \<equiv> CreateTransaction_between marshal env others req db"
  shows "unique_keys (snd res)"
    and "\<exists>new. transactions (snd res) = transactions db @ new"
    and "fst res = Inr t \<Longrightarrow> t \<in> set (transactions (snd res))
           \<and> tx_AccountID t = req_AccountID req \<and> tx_IdempotencyKey t = req_IdempotencyKey req"
proof -
  have "unique_keys (snd res) \<and> (\<exists>new. transactions (snd res) = transactions db @ new)
      \<and> (\<forall>t. fst res = Inr t \<longrightarrow> t \<in> set (transactions (snd res))
           \<and> tx_AccountID t = req_AccountID req \<and> tx_IdempotencyKey t = req_IdempotencyKey req)"
  proof (cases rule: CreateTransaction_between_cases [of marshal env others req db])
    case (error e)
    with uk show ?thesis by (simp add: res_def)
  next
    case (replay t)
    with uk select_transaction_by_key_Some [OF replay(2)] show ?thesis by (simp add: res_def)
  next
    case late
    from oext obtain new where new: "transactions (others db) = transactions db @ new" ..
    show ?thesis
    proof (cases rule: insertWithOutbox_cases [of marshal env req "others db"])
      case (error e)
      with late ouk new show ?thesis by (simp add: res_def)
    next
      case (created t payloadBytes)
      have "unique_keys (snd res)"
        using late(2) created(1) unique_keys_append [OF ouk created(7)]
        by (simp add: res_def)
      moreover have "transactions (snd res) = transactions db @ (new @ [t])"
        using late(2) created(1) new by (simp add: res_def)
      moreover have "fst res = Inr t"
        using late(2) created(1) by (simp add: res_def)
      ultimately show ?thesis
        using created(2,3) by auto
    qed
  qed
  then show "unique_keys (snd res)"
    and "\<exists>new. transactions (snd res) = transactions db @ new"
    and "fst res = Inr t \<Longrightarrow> t \<in> set (transactions (snd res))
           \<and> tx_AccountID t = req_AccountID req \<and> tx_IdempotencyKey t = req_IdempotencyKey req"
    by blast+
qed

lemma run_rivals_step:
  assumes "unique_keys db"
  shows "unique_keys (run_rivals marshal rivals db)
       \<and> (\<exists>new. transactions (run_rivals marshal rivals db) = transactions db @ new)"
  using assms
proof (induction rivals arbitrary: db)
  case Nil
  then show ?case by simp
next
  case (Cons rv rivals)
  obtain env req where rv: "rv = (env, req)" by (cases rv)
  let ?db1 = "snd (CreateTransaction marshal env req db)"
  have s1: "unique_keys ?db1" and s2: "\<exists>new. transactions ?db1 = transactions db @ new"
    using CreateTransaction_between_step(1,2) [where others = "\<lambda>d. d" and db = db and marshal = marshal and env = env and req = req] Cons.prems
    by (simp_all add: CreateTransaction_def)
  from Cons.IH [OF s1] s2 show ?case
    by (auto simp: rv)
qed

lemma CreateTransaction_raced_step:
  fixes marshal env rivals req db
  assumes uk: "unique_keys db"
  defines "res \<equiv> CreateTransaction_raced marshal env rivals req db"
  shows "unique_keys (snd res)"
    and "\<exists>new. transactions (snd res) = transactions db @ new"
    and "fst res = Inr t \<Longrightarrow> t \<in> set (transactions (snd res))
           \<and> tx_AccountID t = req_AccountID req \<and> tx_IdempotencyKey t = req_IdempotencyKey req"
  using CreateTransaction_between_step [where others = "run_rivals marshal rivals" and db = db and marshal = marshal and env = env
      and req = req]
    run_rivals_step [OF uk, of marshal rivals] uk
  by (simp_all add: res_def CreateTransaction_raced_def)

lemma create_calls_invariant:
  assumes "unique_keys db"
    and "\<forall>c \<in> set calls. req_AccountID (call_req c) = a \<and> req_IdempotencyKey (call_req c) = k"
  shows "unique_keys (snd (create_calls marshal calls db))
       \<and> (\<exists>new. transactions (snd (create_calls marshal calls db)) = transactions db @ new)
       \<and> (\<forall>t. Inr t \<in> set (fst (create_calls marshal calls db)) \<longrightarrow>
              t \<in> set (transactions (snd (create_calls marshal calls db)))
              \<and> tx_AccountID t = a \<and> tx_IdempotencyKey t = k)"
  using assms
proof (induction calls arbitrary: db)
  case Nil
  then show ?case by simp
next
  case (Cons c calls)
  define env rivals req where c: "env = call_env c" "rivals = call_rivals c" "req = call_req c"
  obtain r db1 where r: "CreateTransaction_raced marshal env rivals req db = (r, db1)"
    by (cases "CreateTransaction_raced marshal env rivals req db")
  obtain rs db2 where rs: "create_calls marshal calls db1 = (rs, db2)"
    by (cases "create_calls marshal calls db1")
  have key: "req_AccountID req = a" "req_IdempotencyKey req = k"
    using Cons.prems(2) c by auto
  note step = CreateTransaction_raced_step [OF Cons.prems(1), of marshal env rivals req]
  have uk1: "unique_keys db1" using step(1) r by simp
  from step(2) r obtain new1 where new1: "transactions db1 = transactions db @ new1" by auto
  have ret1: "\<And>t. r = Inr t \<Longrightarrow> t \<in> set (transactions db1)
                 \<and> tx_AccountID t = a \<and> tx_IdempotencyKey t = k"
    using step(3) r key by simp
  have rest: "\<forall>c \<in> set calls. req_AccountID (call_req c) = a \<and> req_IdempotencyKey (call_req c) = k"
    using Cons.prems(2) by simp
  from Cons.IH [OF uk1 rest] rs
  have uk2: "unique_keys db2"
    and ext2: "\<exists>new. transactions db2 = transactions db1 @ new"
    and ret2: "\<forall>t. Inr t \<in> set rs \<longrightarrow> t \<in> set (transactions db2)
                 \<and> tx_AccountID t = a \<and> tx_IdempotencyKey t = k"
    by simp_all
  from ext2 obtain new2 where new2: "transactions db2 = transactions db1 @ new2" ..
  have res: "create_calls marshal (c # calls) db = (r # rs, db2)"
    using c r rs by simp
  have "\<exists>new. transactions db2 = transactions db @ new"
    using new1 new2 by simp
  moreover have "\<forall>t. Inr t \<in> set (r # rs) \<longrightarrow> t \<in> set (transactions db2)
                 \<and> tx_AccountID t = a \<and> tx_IdempotencyKey t = k"
    using ret1 ret2 new2 by auto
  ultimately show ?case
    using uk2 by (simp only: res fst_conv snd_conv)
qed

lemma create_calls_replay:
  assumes "select_transaction_by_key db a k = Some t0"
    and "\<forall>c \<in> set calls. req_AccountID (call_req c) = a \<and> req_IdempotencyKey (call_req c) = k"
  shows "\<forall>(c, r) \<in> set (zip calls (fst (create_calls marshal calls db))).
           cf_begin (call_env c) = None \<and> cf_check (call_env c) = None \<longrightarrow> r = Inr t0"
  using assms
proof (induction calls arbitrary: db)
  case Nil
  then show ?case by simp
next
  case (Cons c calls)
  define env rivals req where c: "env = call_env c" "rivals = call_rivals c" "req = call_req c"
  obtain r db1 where r: "CreateTransaction_raced marshal env rivals req db = (r, db1)"
    by (cases "CreateTransaction_raced marshal env rivals req db")
  obtain rs db2 where rs: "create_calls marshal calls db1 = (rs, db2)"
    by (cases "create_calls marshal calls db1")
  have key: "req_AccountID req = a" "req_IdempotencyKey req = k"
    using Cons.prems(2) c by auto
  have sel: "select_transaction_by_key db (req_AccountID req) (req_IdempotencyKey req) = Some t0"
    using Cons.prems(1) key by simp
  have db1: "db1 = db"
    using sel r by (auto simp: CreateTransaction_raced_def CreateTransaction_between_def
        split: option.splits)
  have first: "cf_begin env = None \<and> cf_check env = None \<longrightarrow> r = Inr t0"
    using replay_returns_existing [OF sel, of env marshal "run_rivals marshal rivals"] r
    by (auto simp: CreateTransaction_raced_def)
  have rest: "\<forall>c \<in> set calls. req_AccountID (call_req c) = a \<and> req_IdempotencyKey (call_req c) = k"
    using Cons.prems(2) by simp
  from Cons.IH [OF _ rest, of db1] Cons.prems(1) db1 rs
  have "\<forall>(c, r) \<in> set (zip calls rs).
           cf_begin (call_env c) = None \<and> cf_check (call_env c) = None \<longrightarrow> r = Inr t0"
    by simp
  with first show ?case
    using c r rs by simp
qed

text \<open>
  What holds of M calls with the same account id and idempotency key, with any other
  fields, any database faults and any rival calls running between the \<open>SELECT\<close> and the
  \<open>INSERT\<close> of each, from tables that satisfy the unique constraint. Afterwards the
  constraint holds and at most one row has that account and key; the rows that were
  there are still there, unchanged and in place; every call that returns a transaction
  returns a row of the table with that account and key, so all of them return the same
  row; and if the row existed at the start, every call whose \<open>BEGIN\<close> and \<open>SELECT\<close> run
  returns exactly it. Nothing here says that a call returns a transaction at all.
\<close>

lemma create_calls_one_row:
  assumes uk: "unique_keys db"
    and same: "\<forall>c \<in> set calls.
                 req_AccountID (call_req c) = a \<and> req_IdempotencyKey (call_req c) = k"
  shows "(let rs = fst (create_calls marshal calls db);
              db' = snd (create_calls marshal calls db)
          in unique_keys db'
           \<and> length (filter (\<lambda>t. tx_AccountID t = a \<and> tx_IdempotencyKey t = k)
                 (transactions db')) \<le> 1
           \<and> (\<exists>new. transactions db' = transactions db @ new)
           \<and> (\<forall>t. Inr t \<in> set rs \<longrightarrow>
                 t \<in> set (transactions db') \<and> tx_AccountID t = a \<and> tx_IdempotencyKey t = k)
           \<and> (\<forall>t t'. Inr t \<in> set rs \<and> Inr t' \<in> set rs \<longrightarrow> t = t')
           \<and> (\<forall>t0. select_transaction_by_key db a k = Some t0 \<longrightarrow>
                 (\<forall>(c, r) \<in> set (zip calls rs).
                    cf_begin (call_env c) = None \<and> cf_check (call_env c) = None
                      \<longrightarrow> r = Inr t0)))"
proof -
  let ?rs = "fst (create_calls marshal calls db)"
  let ?db' = "snd (create_calls marshal calls db)"
  note inv = create_calls_invariant [OF uk same, of marshal]
  have uk': "unique_keys ?db'" using inv by blast
  have one: "length (filter (\<lambda>t. tx_AccountID t = a \<and> tx_IdempotencyKey t = k)
                 (transactions ?db')) \<le> 1"
    using unique_keys_at_most_one [OF uk'] .
  have ret: "\<forall>t. Inr t \<in> set ?rs \<longrightarrow>
                 t \<in> set (transactions ?db') \<and> tx_AccountID t = a \<and> tx_IdempotencyKey t = k"
    using inv by blast
  have eq: "\<forall>t t'. Inr t \<in> set ?rs \<and> Inr t' \<in> set ?rs \<longrightarrow> t = t'"
    using ret unique_keys_same_row [OF uk'] by metis
  have rep: "\<forall>t0. select_transaction_by_key db a k = Some t0 \<longrightarrow>
                 (\<forall>(c, r) \<in> set (zip calls ?rs).
                    cf_begin (call_env c) = None \<and> cf_check (call_env c) = None
                      \<longrightarrow> r = Inr t0)"
    using create_calls_replay [OF _ same, of db _ marshal] by blast
  show ?thesis
    unfolding Let_def using uk' one inv ret eq rep by blast
qed

lemmas ingress_defs = CreateTransaction_raced_def CreateTransaction_between_def
  CreateTransaction_def insertWithOutbox_def insert_transaction_def insert_outbox_def
  select_transaction_by_key_def select_account_status_def payload_of_def word_sle_eq Let_def

lemmas ex_ingress_defs = ex_marshal_def ex_ingress_db_def ex_create_env_def ex_req_def
  ex_calls_def ex_winner_def ex_account_def

text \<open>
  Claim C2, on a lost race. Two calls carry the same account and key. While the first is
  between its \<open>SELECT\<close> and its \<open>INSERT\<close>, a rival call with the same key commits its row.
  The \<open>INSERT\<close> of the first call then violates the unique constraint, its re-read is
  refused, and the call returns an error instead of the winning row. The second call
  finds the row at its \<open>SELECT\<close> and returns it. One row exists, that of the rival.
\<close>

theorem C2_race_loser_returns_error:
  "fst (create_calls ex_marshal ex_calls ex_ingress_db)
     = [Inl ''failed to create transaction: pq: current transaction is aborted, commands ignored until end of transaction block'',
        Inr ex_winner]
   \<and> transactions (snd (create_calls ex_marshal ex_calls ex_ingress_db)) = [ex_winner]"
  by (simp add: ingress_defs ex_ingress_defs reread_after_failed_insert_def)

lemma outbox_rows_of_append:
  assumes "outbox_events db' = outbox_events db @ [x]"
  shows "outbox_rows_of db' txid =
           outbox_rows_of db txid @
             (if ob_AggregateType x = ''transaction'' \<and> ob_AggregateID x = txid then [x] else [])"
  using assms by (simp add: outbox_rows_of_def)

lemma coupled_no_rows_for_new_id:
  assumes "coupled db" and "\<forall>u \<in> set (transactions db). tx_ID u \<noteq> txid"
  shows "outbox_rows_of db txid = []"
proof -
  have "\<forall>x \<in> set (outbox_events db).
          \<not> (ob_AggregateType x = ''transaction'' \<and> ob_AggregateID x = txid)"
    using assms unfolding coupled_def by metis
  then show ?thesis
    by (simp add: outbox_rows_of_def filter_empty_conv)
qed

lemma coupled_after_insert:
  assumes c: "coupled db"
    and fresh: "\<forall>u \<in> set (transactions db). tx_ID u \<noteq> tx_ID t"
    and tx: "transactions db' = transactions db @ [t]"
    and ob: "outbox_events db' = outbox_events db @ [x]"
    and x: "ob_AggregateType x = ''transaction''" "ob_AggregateID x = tx_ID t"
  shows "coupled db'" and "length (outbox_rows_of db' (tx_ID t)) = 1"
proof -
  have new: "length (outbox_rows_of db' (tx_ID t)) = 1"
    using outbox_rows_of_append [OF ob, of "tx_ID t"] coupled_no_rows_for_new_id [OF c fresh] x
    by simp
  have old: "length (outbox_rows_of db' (tx_ID u)) = 1" if "u \<in> set (transactions db)" for u
  proof -
    have "tx_ID u \<noteq> tx_ID t" using fresh that by blast
    then have "outbox_rows_of db' (tx_ID u) = outbox_rows_of db (tx_ID u)"
      using outbox_rows_of_append [OF ob, of "tx_ID u"] x by simp
    then show ?thesis using c that by (simp add: coupled_def)
  qed
  have refs: "\<exists>u \<in> set (transactions db'). tx_ID u = ob_AggregateID y"
    if "y \<in> set (outbox_events db')" "ob_AggregateType y = ''transaction''" for y
  proof (cases "y = x")
    case True
    then show ?thesis using x tx by simp
  next
    case False
    with that ob have "y \<in> set (outbox_events db)" by simp
    with c that(2) obtain u where "u \<in> set (transactions db)" "tx_ID u = ob_AggregateID y"
      unfolding coupled_def by blast
    then show ?thesis using tx by auto
  qed
  show "length (outbox_rows_of db' (tx_ID t)) = 1" by (rule new)
  show "coupled db'"
    unfolding coupled_def using new old refs tx by auto
qed

text \<open>What one call leaves behind, given the tables at the time of its insert.\<close>

lemma insertWithOutbox_coupled:
  assumes c: "coupled db"
  shows "coupled (snd (insertWithOutbox marshal env req db))"
proof (cases rule: insertWithOutbox_cases [of marshal env req db])
  case (error e)
  with c show ?thesis by simp
next
  case (created t payloadBytes)
  show ?thesis
    unfolding created(1) snd_conv
    by (rule coupled_after_insert(1) [OF c created(6)], simp, simp, simp, simp)
qed

lemma CreateTransaction_between_coupled:
  assumes "coupled db" and "coupled (others db)"
  shows "coupled (snd (CreateTransaction_between marshal env others req db))"
proof (cases rule: CreateTransaction_between_cases [of marshal env others req db])
  case (error e)
  with assms show ?thesis by simp
next
  case (replay t)
  with assms show ?thesis by simp
next
  case late
  with insertWithOutbox_coupled [OF assms(2), of marshal env req] show ?thesis by simp
qed

lemma run_rivals_coupled:
  "coupled db \<Longrightarrow> coupled (run_rivals marshal rivals db)"
proof (induction rivals arbitrary: db)
  case Nil
  then show ?case by simp
next
  case (Cons rv rivals)
  obtain env req where rv: "rv = (env, req)" by (cases rv)
  have "coupled (snd (CreateTransaction marshal env req db))"
    unfolding CreateTransaction_def
    using CreateTransaction_between_coupled [of db "\<lambda>d. d"] Cons.prems by simp
  from Cons.IH [OF this] show ?case by (simp add: rv)
qed

text \<open>
  Claim C6. One call, raced or not, on coupled tables (each transaction has exactly
  one transaction-sourced outbox row and each such row has its transaction). The tables
  after the call are coupled again. A call that returns an error leaves nothing behind.
  A call that returns a transaction either wrote nothing (it found the row at its
  \<open>SELECT\<close>) or committed, together, the new PENDING transaction row and one outbox row with
  aggregate type \<open>transaction\<close>, the transaction's id as aggregate id, event type
  \<open>transaction.created\<close> and status PENDING, after which exactly one outbox row refers
  to the new transaction; the payload of that row is the encoding of the transaction's
  own id, account, amount, currency, direction, key and metadata.
\<close>

theorem C6_outbox_commit_coupling:
  assumes c: "coupled db"
  shows "(let db1 = run_rivals marshal rivals db;
              r = fst (CreateTransaction_raced marshal env rivals req db);
              db' = snd (CreateTransaction_raced marshal env rivals req db)
          in coupled db'
           \<and> (case r of
                 Inl e \<Rightarrow> db' = db \<or> db' = db1
               | Inr t \<Rightarrow>
                   (t \<in> set (transactions db) \<and> db' = db)
                 \<or> (tx_ID t \<notin> tx_ID ` set (transactions db1)
                     \<and> tx_Status t = TransactionStatusPending
                     \<and> (\<exists>payloadBytes. marshal (payload_of t) = Inr payloadBytes \<and>
                          db' = db1\<lparr>transactions := transactions db1 @ [t],
                                    outbox_events := outbox_events db1 @
                                      [\<lparr>ob_ID = c_outboxID env,
                                        ob_AggregateType = ''transaction'',
                                        ob_AggregateID = tx_ID t,
                                        ob_EventType = ''transaction.created'',
                                        ob_Payload = payloadBytes, ob_Status = ''PENDING'',
                                        ob_CreatedAt = c_now env, ob_PublishedAt = None,
                                        ob_PublishAttempts = 0, ob_LastError = None\<rparr>]\<rparr>)
                     \<and> length (outbox_rows_of db' (tx_ID t)) = 1)))"
proof -
  let ?db1 = "run_rivals marshal rivals db"
  let ?res = "CreateTransaction_raced marshal env rivals req db"
  have c1: "coupled ?db1" using c by (rule run_rivals_coupled)
  have cres: "coupled (snd ?res)"
    unfolding CreateTransaction_raced_def
    using CreateTransaction_between_coupled [where others = "run_rivals marshal rivals", OF c c1] .
  have shape: "case fst ?res of
                 Inl e \<Rightarrow> snd ?res = db \<or> snd ?res = ?db1
               | Inr t \<Rightarrow>
                   (t \<in> set (transactions db) \<and> snd ?res = db)
                 \<or> (tx_ID t \<notin> tx_ID ` set (transactions ?db1)
                     \<and> tx_Status t = TransactionStatusPending
                     \<and> (\<exists>payloadBytes. marshal (payload_of t) = Inr payloadBytes \<and>
                          snd ?res = ?db1\<lparr>transactions := transactions ?db1 @ [t],
                                    outbox_events := outbox_events ?db1 @
                                      [\<lparr>ob_ID = c_outboxID env,
                                        ob_AggregateType = ''transaction'',
                                        ob_AggregateID = tx_ID t,
                                        ob_EventType = ''transaction.created'',
                                        ob_Payload = payloadBytes, ob_Status = ''PENDING'',
                                        ob_CreatedAt = c_now env, ob_PublishedAt = None,
                                        ob_PublishAttempts = 0, ob_LastError = None\<rparr>]\<rparr>)
                     \<and> length (outbox_rows_of (snd ?res) (tx_ID t)) = 1)"
  proof (cases rule: CreateTransaction_between_cases
      [of marshal env "run_rivals marshal rivals" req db])
    case (error e)
    then show ?thesis by (simp add: CreateTransaction_raced_def)
  next
    case (replay t)
    with select_transaction_by_key_Some(1) [OF replay(2)] show ?thesis
      by (simp add: CreateTransaction_raced_def)
  next
    case late
    show ?thesis
    proof (cases rule: insertWithOutbox_cases [of marshal env req ?db1])
      case (error e)
      with late show ?thesis by (simp add: CreateTransaction_raced_def)
    next
      case (created t payloadBytes)
      have res: "?res = (Inr t, ?db1\<lparr>transactions := transactions ?db1 @ [t],
                   outbox_events := outbox_events ?db1 @
                     [\<lparr>ob_ID = c_outboxID env, ob_AggregateType = ''transaction'',
                       ob_AggregateID = tx_ID t, ob_EventType = ''transaction.created'',
                       ob_Payload = payloadBytes, ob_Status = ''PENDING'',
                       ob_CreatedAt = c_now env, ob_PublishedAt = None,
                       ob_PublishAttempts = 0, ob_LastError = None\<rparr>]\<rparr>)"
        using late(2) created(1) by (simp add: CreateTransaction_raced_def)
      have one: "length (outbox_rows_of (snd ?res) (tx_ID t)) = 1"
        unfolding res snd_conv
        by (rule coupled_after_insert(2) [OF c1 created(6)], simp, simp, simp, simp)
      have fresh: "tx_ID t \<notin> tx_ID ` set (transactions ?db1)"
        using created(6) by auto
      show ?thesis
        using one fresh created(4,8) by (auto simp: res)
    qed
  qed
  show ?thesis
    unfolding Let_def using cres shape by simp
qed

theorem C6_outbox_commit_coupling_witness:
  "CreateTransaction_raced ex_marshal (ex_create_env 20 30 5) [] ex_req ex_ingress_db
     = (Inr \<lparr>tx_ID = 20, tx_AccountID = 1, tx_AmountCents = 10000, tx_Currency = ''USD'',
          tx_Type = TransactionTypeCredit, tx_Status = TransactionStatusPending,
          tx_IdempotencyKey = ''k1'', tx_FailureReason = None, tx_Metadata = [],
          tx_CreatedAt = 5, tx_UpdatedAt = 5\<rparr>,
        ex_ingress_db\<lparr>transactions :=
            [\<lparr>tx_ID = 20, tx_AccountID = 1, tx_AmountCents = 10000, tx_Currency = ''USD'',
              tx_Type = TransactionTypeCredit, tx_Status = TransactionStatusPending,
              tx_IdempotencyKey = ''k1'', tx_FailureReason = None, tx_Metadata = [],
              tx_CreatedAt = 5, tx_UpdatedAt = 5\<rparr>],
          outbox_events :=
            [\<lparr>ob_ID = 30, ob_AggregateType = ''transaction'', ob_AggregateID = 20,
              ob_EventType = ''transaction.created'', ob_Payload = ''payload:k1'',
              ob_Status = ''PENDING'', ob_CreatedAt = 5, ob_PublishedAt = None,
              ob_PublishAttempts = 0, ob_LastError = None\<rparr>]\<rparr>)
   \<and> coupled (snd (CreateTransaction_raced ex_marshal (ex_create_env 20 30 5) [] ex_req
        ex_ingress_db))
   \<and> snd (CreateTransaction_raced ex_marshal ((ex_create_env 23 33 7)\<lparr>cf_commit := Some ''EOF''\<rparr>)
        [] ex_req ex_ingress_db) = ex_ingress_db"
  using C6_outbox_commit_coupling [of ex_ingress_db ex_marshal "[]" "ex_create_env 20 30 5" ex_req]
  by (simp add: ingress_defs ex_ingress_defs coupled_def outbox_rows_of_def)

end
